theory Spec2Isabelle
  imports Main "HOL-Library.Word" "HOL-Library.Signed_Division"
begin

unbundle bit_operations_syntax

section \<open>The cachetable of \<^verbatim>\<open>ft/cachetable.cc\<close>\<close>

text \<open>
  The development embeds the page cache of \<^verbatim>\<open>ft/cachetable.cc\<close>: the pairs, the
  pair list (hash table, clock ring, pending list), the evictor's accounting and
  thresholds, the cleaner, the checkpointer and the public pin, put and remove
  operations.

  Conventions of the embedding.
  \<^item> A pointer to a \<^verbatim>\<open>struct ctpair\<close> or a \<^verbatim>\<open>struct cachefile\<close> is an address
    (a natural number); the objects live in two stores of the cachetable state.
    An opaque \<^verbatim>\<open>void*\<close> handle and a function pointer are natural numbers as
    well, \<open>0\<close> being \<^verbatim>\<open>NULL\<close>.
  \<^item> The intrusive lists are kept as HOL lists of addresses: a hash bucket is the
    list obtained by following \<^verbatim>\<open>hash_chain\<close> from the bucket head, the
    pending list the one obtained by following \<^verbatim>\<open>pending_next\<close> from
    \<^verbatim>\<open>m_pending_head\<close>, the clock ring the list of its members in
    \<^verbatim>\<open>clock_next\<close> order.
  \<^item> Every operation is one atomic step of one thread. A step that would put
    the thread to sleep (a lock held by somebody else, cache pressure) ends in
    \<open>BLOCKED\<close>; a failed \<^verbatim>\<open>assert\<close> ends in \<open>ASSERT_FAILED\<close>; a
    \<^verbatim>\<open>NULL\<close> dereference in \<open>SEGFAULT\<close>.
  \<^item> Calls into the upper layer (the callbacks) and into the logger are
    recorded, in program order, in the \<open>trace\<close> of the state.
\<close>

subsection \<open>Results of a step\<close>

datatype error = ASSERT_FAILED | SEGFAULT | BLOCKED | ENOMEM

definition ebind :: "error + 'a \<Rightarrow> ('a \<Rightarrow> error + 'b) \<Rightarrow> error + 'b" where
  "ebind m f = (case m of Inl e \<Rightarrow> Inl e | Inr x \<Rightarrow> f x)"

definition c_assert :: "bool \<Rightarrow> error + unit" where
  "c_assert b = (if b then Inr () else Inl ASSERT_FAILED)"

subsection \<open>C integers\<close>

text \<open>
  A \<^verbatim>\<open>long\<close> is a 64-bit two's complement integer: an \<open>int\<close> with the
  wrap-around written out. Division truncates towards zero, as in C.
\<close>

definition long_wrap :: "int \<Rightarrow> int" where
  "long_wrap x = (x + 2 ^ 63) mod 2 ^ 64 - 2 ^ 63"

definition long_mul :: "int \<Rightarrow> int \<Rightarrow> int" where
  "long_mul a b = long_wrap (a * b)"

definition long_div :: "int \<Rightarrow> int \<Rightarrow> int" where
  "long_div a b = long_wrap (a sdiv b)"

subsection \<open>Pairs\<close>

type_synonym voidp = nat
type_synonym funp = nat
type_synonym PAIR = nat
type_synonym CACHEFILE = nat
type_synonym CACHEKEY = "64 word"

datatype cachetable_dirty = CACHETABLE_CLEAN | CACHETABLE_DIRTY

record PAIR_ATTR =
  size_attr :: int
  nonleaf_size :: int
  leaf_size :: int
  rollback_size :: int
  cache_pressure_size :: int
  is_valid :: bool

definition zero_value :: voidp where
  "zero_value = 0"

definition zero_attr :: PAIR_ATTR where
  "zero_attr = \<lparr>size_attr = 0, nonleaf_size = 0, leaf_size = 0, rollback_size = 0,
     cache_pressure_size = 0, is_valid = True\<rparr>"

definition make_pair_attr :: "int \<Rightarrow> PAIR_ATTR" where
  "make_pair_attr s = \<lparr>size_attr = s, nonleaf_size = 0, leaf_size = 0, rollback_size = 0,
     cache_pressure_size = 0, is_valid = True\<rparr>"

text \<open>
  Modelled from the spec: \<^verbatim>\<open>nonblocking_mutex.h\<close> is not among the sources. The spec
  describes the lock as a counted single-writer exclusion whose users and writers
  counts can be inspected. One atomic step never leaves a thread parked on the
  lock, so the lock is its number of writers (0 or 1), there are no blocked
  writers, and the users are the writers.
\<close>

record nb_mutex =
  writers :: nat

definition nb_mutex_init :: nb_mutex where
  "nb_mutex_init = \<lparr>writers = 0\<rparr>"

definition nb_mutex_writers :: "nb_mutex \<Rightarrow> nat" where
  "nb_mutex_writers m = writers m"

definition nb_mutex_blocked_writers :: "nb_mutex \<Rightarrow> nat" where
  "nb_mutex_blocked_writers m = 0"

definition nb_mutex_users :: "nb_mutex \<Rightarrow> nat" where
  "nb_mutex_users m = nb_mutex_writers m + nb_mutex_blocked_writers m"

definition nb_mutex_lock :: "nb_mutex \<Rightarrow> error + nb_mutex" where
  "nb_mutex_lock m = (if 0 < nb_mutex_users m then Inl BLOCKED else Inr (m\<lparr>writers := 1\<rparr>))"

definition nb_mutex_unlock :: "nb_mutex \<Rightarrow> error + nb_mutex" where
  "nb_mutex_unlock m = (if writers m = 0 then Inl ASSERT_FAILED else Inr (m\<lparr>writers := writers m - 1\<rparr>))"

text \<open>
  The pair, with the fields \<^verbatim>\<open>pair_init\<close> sets. The pair's own short-held
  \<^verbatim>\<open>mutex\<close> is taken and released inside every step and is not represented;
  the links of the three lists live in the pair list.
\<close>

record ctpair =
  cachefile :: CACHEFILE
  key :: CACHEKEY
  value_data :: voidp
  cloned_value_data :: voidp
  cloned_value_size :: int
  disk_data :: voidp
  attr :: PAIR_ATTR
  dirty :: cachetable_dirty
  fullhash :: "32 word"
  flush_callback :: funp
  pe_callback :: funp
  pe_est_callback :: funp
  cleaner_callback :: funp
  clone_callback :: funp
  write_extraargs :: voidp
  count :: nat
  checkpoint_pending :: bool
  value_nb_mutex :: nb_mutex
  disk_nb_mutex :: nb_mutex
  size_evicting_estimate :: int

record CACHETABLE_WRITE_CALLBACK =
  wc_flush_callback :: funp
  wc_pe_est_callback :: funp
  wc_pe_callback :: funp
  wc_cleaner_callback :: funp
  wc_clone_callback :: funp
  wc_write_extraargs :: voidp

subsection \<open>The evictor's thresholds\<close>

record evictor =
  m_low_size_watermark :: int
  m_low_size_hysteresis :: int
  m_high_size_hysteresis :: int
  m_high_size_watermark :: int
  m_size_reserved :: int
  m_size_nonleaf :: int
  m_size_current :: int
  m_size_evicting :: int
  m_size_leaf :: int
  m_size_rollback :: int
  m_size_cachepressure :: int
  m_num_sleepers :: nat
  m_ev_thread_is_running :: bool

definition unreservable_memory :: "int \<Rightarrow> int" where
  "unreservable_memory sz = long_div sz 4"

definition evictor_init :: "int \<Rightarrow> evictor" where
  "evictor_init size_limit =
     \<lparr>m_low_size_watermark = size_limit,
      m_low_size_hysteresis = long_div (long_mul 11 size_limit) 10,
      m_high_size_hysteresis = long_div (long_mul 5 size_limit) 4,
      m_high_size_watermark = long_div (long_mul 3 size_limit) 2,
      m_size_reserved = unreservable_memory size_limit,
      m_size_nonleaf = 0,
      m_size_current = 0,
      m_size_evicting = 0,
      m_size_leaf = 0,
      m_size_rollback = 0,
      m_size_cachepressure = 0,
      m_num_sleepers = 0,
      m_ev_thread_is_running = False\<rparr>"


subsection \<open>Cachefiles\<close>

text \<open>
  Modelled from the spec: \<^verbatim>\<open>background_job_manager.h\<close> is not among the sources. The
  spec describes the manager as a reference count with a drain condition: adding a
  job increments it and is refused once the manager drains (the file is closing),
  removing a job decrements it, waiting blocks until the count is zero, and a reset
  lets the manager accept jobs again.
\<close>

record bjm =
  accepting_jobs :: bool
  num_jobs :: nat

definition bjm_init :: bjm where
  "bjm_init = \<lparr>accepting_jobs = True, num_jobs = 0\<rparr>"

definition bjm_add_background_job :: "bjm \<Rightarrow> int \<times> bjm" where
  "bjm_add_background_job b =
     (if accepting_jobs b then (0, b\<lparr>num_jobs := num_jobs b + 1\<rparr>) else (-1, b))"

definition bjm_remove_background_job :: "bjm \<Rightarrow> error + bjm" where
  "bjm_remove_background_job b =
     (if num_jobs b = 0 then Inl ASSERT_FAILED else Inr (b\<lparr>num_jobs := num_jobs b - 1\<rparr>))"

definition bjm_reset :: "bjm \<Rightarrow> error + bjm" where
  "bjm_reset b =
     (if num_jobs b = 0 then Inr (b\<lparr>accepting_jobs := True\<rparr>) else Inl ASSERT_FAILED)"

definition bjm_wait_for_jobs_to_finish :: "bjm \<Rightarrow> error + bjm" where
  "bjm_wait_for_jobs_to_finish b =
     (if num_jobs b = 0 then Inr (b\<lparr>accepting_jobs := False\<rparr>) else Inl BLOCKED)"

record cachefile_rec =
  fd :: int
  filenum :: "32 word"
  userdata :: voidp
  for_checkpoint :: bool
  cf_bjm :: bjm
  log_fassociate_during_checkpoint :: funp
  log_suppress_rollback_during_checkpoint :: funp
  checkpoint_userdata :: funp
  begin_checkpoint_userdata :: funp
  end_checkpoint_userdata :: funp
  note_pin_by_checkpoint :: funp
  note_unpin_by_checkpoint :: funp

subsection \<open>The calls into the upper layer\<close>

record flush_args =
  fa_cachefile :: CACHEFILE
  fa_fd :: int
  fa_key :: CACHEKEY
  fa_value :: voidp
  fa_disk_data :: voidp
  fa_write_extraargs :: voidp
  fa_old_attr :: PAIR_ATTR
  fa_write_me :: bool
  fa_keep_me :: bool
  fa_for_checkpoint :: bool
  fa_is_clone :: bool

datatype partial_eviction_cost = PE_CHEAP | PE_EXPENSIVE

record fetch_result =
  fr_r :: int
  fr_value :: voidp
  fr_disk_data :: voidp
  fr_attr :: PAIR_ATTR
  fr_dirty :: int

text \<open>
  The callbacks are opaque to the cachetable. What they return is a parameter of the
  model: a \<open>callbacks\<close> record interprets every function pointer. A flush callback
  that leaves \<^verbatim>\<open>new_attr\<close> alone is one that returns the old attribute.
\<close>

record callbacks =
  flush_result :: "funp \<Rightarrow> flush_args \<Rightarrow> voidp \<times> PAIR_ATTR"
  clone_result :: "funp \<Rightarrow> voidp \<Rightarrow> voidp \<Rightarrow> voidp \<times> PAIR_ATTR"
  pe_est_result :: "funp \<Rightarrow> voidp \<Rightarrow> voidp \<Rightarrow> voidp \<Rightarrow> int \<times> partial_eviction_cost"
  pe_result :: "funp \<Rightarrow> voidp \<Rightarrow> PAIR_ATTR \<Rightarrow> voidp \<Rightarrow> PAIR_ATTR"
  cleaner_result :: "funp \<Rightarrow> voidp \<Rightarrow> CACHEKEY \<Rightarrow> 32 word \<Rightarrow> voidp \<Rightarrow> int"
  fetch_cb_result :: "funp \<Rightarrow> CACHEFILE \<Rightarrow> PAIR \<Rightarrow> int \<Rightarrow> CACHEKEY \<Rightarrow> 32 word \<Rightarrow> voidp \<Rightarrow> fetch_result"
  pf_req_result :: "funp \<Rightarrow> voidp \<Rightarrow> voidp \<Rightarrow> bool"
  pf_result :: "funp \<Rightarrow> voidp \<Rightarrow> voidp \<Rightarrow> voidp \<Rightarrow> int \<Rightarrow> int \<times> PAIR_ATTR"
  cf_result :: "funp \<Rightarrow> CACHEFILE \<Rightarrow> int"

datatype event =
    EV_FLUSH funp flush_args
  | EV_CLONE funp voidp voidp
  | EV_PE_EST funp voidp voidp voidp
  | EV_PE funp voidp PAIR_ATTR voidp
  | EV_CLEANER funp voidp CACHEKEY "32 word" voidp
  | EV_FETCH funp CACHEFILE PAIR int CACHEKEY "32 word" voidp
  | EV_PF_REQ funp voidp voidp
  | EV_PF funp voidp voidp voidp int
  | EV_PUT_CB funp voidp PAIR
  | EV_REMOVE_KEY funp CACHEKEY bool voidp
  | EV_DESTROY PAIR
  | EV_CF funp CACHEFILE
  | EV_LOG_BEGIN_CHECKPOINT
  | EV_LOG_END_CHECKPOINT nat nat
  | EV_TESTCALLBACK funp voidp

datatype job =
    JOB_EVICTER PAIR
  | JOB_PARTIAL_EVICTION PAIR
  | JOB_CHECKPOINT_CLONED_PAIR PAIR
  | JOB_READER PAIR funp voidp
  | JOB_PARTIAL_READER PAIR funp voidp
  | JOB_FLUSH_PAIR_FOR_CLOSE PAIR

subsection \<open>The pair list, the checkpointer, the cleaner and the cachetable\<close>

record pair_list =
  m_table :: "PAIR list list"
  m_n_in_table :: nat
  m_clock :: "PAIR list"
  m_clock_head :: "PAIR option"
  m_cleaner_head :: "PAIR option"
  m_pending :: "PAIR list"

definition m_table_size :: "pair_list \<Rightarrow> nat" where
  "m_table_size pl = length (m_table pl)"

definition m_pending_head :: "pair_list \<Rightarrow> PAIR option" where
  "m_pending_head pl = (case m_pending pl of [] \<Rightarrow> None | p # _ \<Rightarrow> Some p)"

record checkpointer =
  m_logger :: voidp
  m_checkpoint_num_files :: nat
  m_checkpoint_num_txns :: nat
  m_checkpoint_clones_bjm :: bjm

record cleaner =
  m_cleaner_iterations :: nat

record cachetable =
  pairs :: "PAIR \<Rightarrow> ctpair"
  next_pair :: PAIR
  files :: "CACHEFILE \<Rightarrow> cachefile_rec"
  list :: pair_list
  cf_list :: "CACHEFILE list"
  ev :: evictor
  cp :: checkpointer
  cl :: cleaner
  client_kibbutz :: "job list"
  ct_kibbutz :: "job list"
  checkpointing_kibbutz :: "job list"
  cachetable_miss :: nat
  cachetable_puts :: nat
  cachetable_prefetches :: nat
  cachetable_evictions :: nat
  cleaner_executions :: nat
  trace :: "event list"

definition emit :: "event \<Rightarrow> cachetable \<Rightarrow> cachetable" where
  "emit e ct = ct\<lparr>trace := trace ct @ [e]\<rparr>"

definition set_pair :: "PAIR \<Rightarrow> (ctpair \<Rightarrow> ctpair) \<Rightarrow> cachetable \<Rightarrow> cachetable" where
  "set_pair p f ct = ct\<lparr>pairs := (pairs ct)(p := f (pairs ct p))\<rparr>"

definition set_file :: "CACHEFILE \<Rightarrow> (cachefile_rec \<Rightarrow> cachefile_rec) \<Rightarrow> cachetable \<Rightarrow> cachetable" where
  "set_file cf f ct = ct\<lparr>files := (files ct)(cf := f (files ct cf))\<rparr>"


subsection \<open>The clock counter\<close>

definition CLOCK_SATURATION :: nat where
  "CLOCK_SATURATION = 15"

definition CLOCK_INITIAL_COUNT :: nat where
  "CLOCK_INITIAL_COUNT = 3"

definition pair_touch :: "ctpair \<Rightarrow> ctpair" where
  "pair_touch p =
     p\<lparr>count := (if count p < CLOCK_SATURATION then count p + 1 else CLOCK_SATURATION)\<rparr>"

subsection \<open>The hash of a pair\<close>

definition rot :: "32 word \<Rightarrow> nat \<Rightarrow> 32 word" where
  "rot x k = (push_bit k x) OR (drop_bit (32 - k) x)"

definition final :: "32 word \<Rightarrow> 32 word \<Rightarrow> 32 word \<Rightarrow> 32 word" where
  "final a b c =
    (let c = c XOR b; c = c - rot b 14;
         a = a XOR c; a = a - rot c 11;
         b = b XOR a; b = b - rot a 25;
         c = c XOR b; c = c - rot b 16;
         a = a XOR c; a = a - rot c 4;
         b = b XOR a; b = b - rot a 14;
         c = c XOR b; c = c - rot b 24
     in c)"

definition toku_cachetable_hash :: "cachetable \<Rightarrow> CACHEFILE \<Rightarrow> CACHEKEY \<Rightarrow> 32 word" where
  "toku_cachetable_hash ct cf k =
     final (filenum (files ct cf)) (ucast (drop_bit 32 k)) (ucast k)"

subsection \<open>The pair list\<close>

definition INITIAL_PAIR_LIST_SIZE :: nat where
  "INITIAL_PAIR_LIST_SIZE = 4"

definition pair_list_init :: pair_list where
  "pair_list_init =
     \<lparr>m_table = replicate INITIAL_PAIR_LIST_SIZE [], m_n_in_table = 0, m_clock = [],
      m_clock_head = None, m_cleaner_head = None, m_pending = []\<rparr>"

text \<open>The bucket of a hash: \<^verbatim>\<open>fullhash & (m_table_size - 1)\<close>, on \<^verbatim>\<open>uint32_t\<close>.\<close>

definition bucket_of :: "nat \<Rightarrow> 32 word \<Rightarrow> nat" where
  "bucket_of table_size h = unat (h AND (word_of_nat table_size - 1))"

definition find_pair :: "cachetable \<Rightarrow> CACHEFILE \<Rightarrow> CACHEKEY \<Rightarrow> 32 word \<Rightarrow> PAIR option" where
  "find_pair ct file k h =
     find (\<lambda>p. key (pairs ct p) = k \<and> cachefile (pairs ct p) = file)
       (m_table (list ct) ! bucket_of (m_table_size (list ct)) h)"

text \<open>The successor of \<open>p\<close> on the ring: \<^verbatim>\<open>p->clock_next\<close>.\<close>

definition ring_next :: "PAIR list \<Rightarrow> PAIR \<Rightarrow> PAIR" where
  "ring_next ring p =
     (case dropWhile (\<lambda>x. x \<noteq> p) ring of
        [] \<Rightarrow> p
      | [_] \<Rightarrow> (case ring of [] \<Rightarrow> p | q # _ \<Rightarrow> q)
      | _ # q # _ \<Rightarrow> q)"

text \<open>Linking \<open>p\<close> right before \<open>h\<close>, that is at the tail of a ring whose head is \<open>h\<close>.\<close>

definition insert_before :: "PAIR \<Rightarrow> PAIR \<Rightarrow> PAIR list \<Rightarrow> PAIR list" where
  "insert_before h p ring = takeWhile (\<lambda>x. x \<noteq> h) ring @ p # dropWhile (\<lambda>x. x \<noteq> h) ring"

definition add_to_clock :: "PAIR \<Rightarrow> cachetable \<Rightarrow> error + cachetable" where
  "add_to_clock p ct =
     (let ct1 = set_pair p (\<lambda>x. x\<lparr>count := CLOCK_INITIAL_COUNT\<rparr>) ct;
          pl = list ct1
      in case m_clock_head pl of
           Some h \<Rightarrow>
             ebind (c_assert (m_cleaner_head pl \<noteq> None)) (\<lambda>_.
               Inr (ct1\<lparr>list := pl\<lparr>m_clock := insert_before h p (m_clock pl)\<rparr>\<rparr>))
         | None \<Rightarrow>
             Inr (ct1\<lparr>list := pl\<lparr>m_clock := [p], m_clock_head := Some p,
                                   m_cleaner_head := Some p\<rparr>\<rparr>))"

definition pair_remove :: "PAIR \<Rightarrow> cachetable \<Rightarrow> error + cachetable" where
  "pair_remove p ct =
     (let pl = list ct
      in if p \<notin> set (m_clock pl) then Inl SEGFAULT
         else if m_clock pl = [p] then
           ebind (c_assert (m_clock_head pl = Some p \<and> m_cleaner_head pl = Some p)) (\<lambda>_.
             Inr (ct\<lparr>list := pl\<lparr>m_clock := [], m_clock_head := None,
                                  m_cleaner_head := None\<rparr>\<rparr>))
         else
           Inr (ct\<lparr>list := pl\<lparr>
                  m_clock := remove1 p (m_clock pl),
                  m_clock_head :=
                    (if m_clock_head pl = Some p then Some (ring_next (m_clock pl) p)
                     else m_clock_head pl),
                  m_cleaner_head :=
                    (if m_cleaner_head pl = Some p then Some (ring_next (m_clock pl) p)
                     else m_cleaner_head pl)\<rparr>\<rparr>))"

definition pending_pairs_remove :: "PAIR \<Rightarrow> cachetable \<Rightarrow> cachetable" where
  "pending_pairs_remove p ct = ct\<lparr>list := (list ct)\<lparr>m_pending := remove1 p (m_pending (list ct))\<rparr>\<rparr>"

fun remove_from_hash_chain :: "PAIR \<Rightarrow> PAIR list \<Rightarrow> error + PAIR list" where
  "remove_from_hash_chain remove_me [] = Inl SEGFAULT"
| "remove_from_hash_chain remove_me (x # chain) =
     (if remove_me = x then Inr chain
      else ebind (remove_from_hash_chain remove_me chain) (\<lambda>r. Inr (x # r)))"

text \<open>
  \<^verbatim>\<open>rehash\<close> pops the pairs of the old buckets, bucket by bucket and from the head
  of each chain, and pushes each on the head of its new bucket.
\<close>

definition rehash_push :: "(PAIR \<Rightarrow> ctpair) \<Rightarrow> nat \<Rightarrow> PAIR list list \<Rightarrow> PAIR \<Rightarrow> PAIR list list" where
  "rehash_push ps newtable_size newtable p =
     (let h = bucket_of newtable_size (fullhash (ps p))
      in newtable[h := p # newtable ! h])"

definition rehash :: "nat \<Rightarrow> cachetable \<Rightarrow> error + cachetable" where
  "rehash newtable_size ct =
     ebind (c_assert (4 \<le> newtable_size \<and>
               (word_of_nat newtable_size :: 32 word) AND (word_of_nat newtable_size - 1) = 0)) (\<lambda>_.
       Inr (ct\<lparr>list := (list ct)\<lparr>m_table :=
              foldl (rehash_push (pairs ct) newtable_size) (replicate newtable_size [])
                (concat (m_table (list ct)))\<rparr>\<rparr>))"

definition pair_list_put :: "PAIR \<Rightarrow> cachetable \<Rightarrow> error + cachetable" where
  "pair_list_put p ct =
     ebind (c_assert (find_pair ct (cachefile (pairs ct p)) (key (pairs ct p))
                        (fullhash (pairs ct p)) = None)) (\<lambda>_.
     ebind (add_to_clock p ct) (\<lambda>ct1.
       let pl = list ct1;
           h = bucket_of (m_table_size pl) (fullhash (pairs ct1 p));
           pl2 = pl\<lparr>m_table := (m_table pl)[h := p # m_table pl ! h],
                    m_n_in_table := m_n_in_table pl + 1\<rparr>;
           ct2 = ct1\<lparr>list := pl2\<rparr>
       in if m_n_in_table pl2 > m_table_size pl2 then rehash (m_table_size pl2 * 2) ct2
          else Inr ct2))"

definition pair_list_evict :: "PAIR \<Rightarrow> cachetable \<Rightarrow> error + cachetable" where
  "pair_list_evict p ct =
     ebind (pair_remove p ct) (\<lambda>ct1.
       let ct2 = pending_pairs_remove p ct1; pl = list ct2
       in ebind (c_assert (m_n_in_table pl > 0)) (\<lambda>_.
          let h = bucket_of (m_table_size pl) (fullhash (pairs ct2 p))
          in ebind (remove_from_hash_chain p (m_table pl ! h)) (\<lambda>chain.
             let pl2 = pl\<lparr>m_table := (m_table pl)[h := chain],
                          m_n_in_table := m_n_in_table pl - 1\<rparr>;
                 ct3 = ct2\<lparr>list := pl2\<rparr>
             in if 4 * m_n_in_table pl2 < m_table_size pl2 \<and> m_table_size pl2 > 4
                then rehash (m_table_size pl2 div 2) ct3
                else Inr ct3)))"

subsection \<open>The evictor's accounting\<close>

definition add_to_size_current :: "int \<Rightarrow> evictor \<Rightarrow> evictor" where
  "add_to_size_current sz e = e\<lparr>m_size_current := m_size_current e + sz\<rparr>"

definition remove_from_size_current :: "int \<Rightarrow> evictor \<Rightarrow> evictor" where
  "remove_from_size_current sz e = e\<lparr>m_size_current := m_size_current e - sz\<rparr>"

definition add_pair_attr :: "PAIR_ATTR \<Rightarrow> evictor \<Rightarrow> error + evictor" where
  "add_pair_attr a e =
     ebind (c_assert (is_valid a)) (\<lambda>_.
       Inr ((add_to_size_current (size_attr a) e)\<lparr>
          m_size_nonleaf := m_size_nonleaf e + nonleaf_size a,
          m_size_leaf := m_size_leaf e + leaf_size a,
          m_size_rollback := m_size_rollback e + rollback_size a,
          m_size_cachepressure := m_size_cachepressure e + cache_pressure_size a\<rparr>))"

definition remove_pair_attr :: "PAIR_ATTR \<Rightarrow> evictor \<Rightarrow> error + evictor" where
  "remove_pair_attr a e =
     ebind (c_assert (is_valid a)) (\<lambda>_.
       let e2 = (remove_from_size_current (size_attr a) e)\<lparr>
          m_size_nonleaf := m_size_nonleaf e - nonleaf_size a,
          m_size_leaf := m_size_leaf e - leaf_size a,
          m_size_rollback := m_size_rollback e - rollback_size a,
          m_size_cachepressure := m_size_cachepressure e - cache_pressure_size a\<rparr>
       in ebind (c_assert (m_size_current e2 \<ge> 0)) (\<lambda>_. Inr e2))"

definition change_pair_attr :: "PAIR_ATTR \<Rightarrow> PAIR_ATTR \<Rightarrow> evictor \<Rightarrow> error + evictor" where
  "change_pair_attr old_attr new_attr e =
     ebind (add_pair_attr new_attr e) (remove_pair_attr old_attr)"

definition should_client_thread_sleep :: "evictor \<Rightarrow> bool" where
  "should_client_thread_sleep e \<longleftrightarrow> m_size_current e > m_high_size_watermark e"

definition should_sleeping_clients_wakeup :: "evictor \<Rightarrow> bool" where
  "should_sleeping_clients_wakeup e \<longleftrightarrow> m_size_current e \<le> m_high_size_hysteresis e"

definition should_client_wake_eviction_thread :: "evictor \<Rightarrow> bool" where
  "should_client_wake_eviction_thread e \<longleftrightarrow>
     \<not> m_ev_thread_is_running e \<and> m_size_current e - m_size_evicting e > m_low_size_hysteresis e"

definition eviction_needed :: "evictor \<Rightarrow> bool" where
  "eviction_needed e \<longleftrightarrow> m_size_current e - m_size_evicting e > m_low_size_watermark e"

definition decrease_size_evicting :: "int \<Rightarrow> evictor \<Rightarrow> error + evictor" where
  "decrease_size_evicting size_evicting_est e =
     (if size_evicting_est > 0 then
        let e2 = e\<lparr>m_size_evicting := m_size_evicting e - size_evicting_est\<rparr>
        in ebind (c_assert (m_size_evicting e2 \<ge> 0)) (\<lambda>_. Inr e2)
      else Inr e)"

definition with_ev :: "(evictor \<Rightarrow> error + evictor) \<Rightarrow> cachetable \<Rightarrow> error + cachetable" where
  "with_ev f ct = ebind (f (ev ct)) (\<lambda>e. Inr (ct\<lparr>ev := e\<rparr>))"

subsection \<open>Creating the cachetable\<close>

definition checkpointer_init :: "voidp \<Rightarrow> checkpointer" where
  "checkpointer_init logger =
     \<lparr>m_logger = logger, m_checkpoint_num_files = 0, m_checkpoint_num_txns = 0,
      m_checkpoint_clones_bjm = bjm_init\<rparr>"

definition cleaner_init :: "nat \<Rightarrow> cleaner" where
  "cleaner_init cleaner_iterations = \<lparr>m_cleaner_iterations = cleaner_iterations\<rparr>"

text \<open>
  \<^verbatim>\<open>toku_create_cachetable\<close>; \<open>malloc_ok\<close> says whether the allocation of the
  cachetable succeeds. Both stores start out zeroed; the first pair is allocated at
  address 1.
\<close>

definition null_pair :: ctpair where
  "null_pair =
     \<lparr>cachefile = 0, key = 0, value_data = 0, cloned_value_data = 0, cloned_value_size = 0,
      disk_data = 0, attr = \<lparr>size_attr = 0, nonleaf_size = 0, leaf_size = 0, rollback_size = 0,
        cache_pressure_size = 0, is_valid = False\<rparr>,
      dirty = CACHETABLE_CLEAN, fullhash = 0, flush_callback = 0, pe_callback = 0,
      pe_est_callback = 0, cleaner_callback = 0, clone_callback = 0, write_extraargs = 0,
      count = 0, checkpoint_pending = False, value_nb_mutex = nb_mutex_init,
      disk_nb_mutex = nb_mutex_init, size_evicting_estimate = 0\<rparr>"

definition null_file :: cachefile_rec where
  "null_file =
     \<lparr>fd = 0, filenum = 0, userdata = 0, for_checkpoint = False, cf_bjm = bjm_init,
      log_fassociate_during_checkpoint = 0, log_suppress_rollback_during_checkpoint = 0,
      checkpoint_userdata = 0, begin_checkpoint_userdata = 0, end_checkpoint_userdata = 0,
      note_pin_by_checkpoint = 0, note_unpin_by_checkpoint = 0\<rparr>"

definition toku_create_cachetable :: "bool \<Rightarrow> int \<Rightarrow> voidp \<Rightarrow> error + cachetable" where
  "toku_create_cachetable malloc_ok size_limit logger =
     (let size_limit = (if size_limit = 0 then 128 * 1024 * 1024 else size_limit)
      in if \<not> malloc_ok then Inl ENOMEM
         else Inr \<lparr>pairs = (\<lambda>_. null_pair), next_pair = 1, files = (\<lambda>_. null_file),
                   list = pair_list_init,
                   cf_list = [], ev = evictor_init size_limit, cp = checkpointer_init logger,
                   cl = cleaner_init 1, client_kibbutz = [], ct_kibbutz = [],
                   checkpointing_kibbutz = [], cachetable_miss = 0, cachetable_puts = 0,
                   cachetable_prefetches = 0, cachetable_evictions = 0, cleaner_executions = 0,
                   trace = []\<rparr>)"

subsection \<open>Inserting a pair\<close>

definition pair_init ::
  "CACHEFILE \<Rightarrow> CACHEKEY \<Rightarrow> voidp \<Rightarrow> PAIR_ATTR \<Rightarrow> cachetable_dirty \<Rightarrow> 32 word \<Rightarrow>
   CACHETABLE_WRITE_CALLBACK \<Rightarrow> ctpair" where
  "pair_init cf k v a d h write_callback =
     \<lparr>cachefile = cf, key = k, value_data = v, cloned_value_data = 0, cloned_value_size = 0,
      disk_data = 0, attr = a, dirty = d, fullhash = h,
      flush_callback = wc_flush_callback write_callback,
      pe_callback = wc_pe_callback write_callback,
      pe_est_callback = wc_pe_est_callback write_callback,
      cleaner_callback = wc_cleaner_callback write_callback,
      clone_callback = wc_clone_callback write_callback,
      write_extraargs = wc_write_extraargs write_callback,
      count = 0, checkpoint_pending = False,
      value_nb_mutex = nb_mutex_init, disk_nb_mutex = nb_mutex_init,
      size_evicting_estimate = 0\<rparr>"

definition cachetable_insert_at ::
  "cachetable \<Rightarrow> CACHEFILE \<Rightarrow> CACHEKEY \<Rightarrow> voidp \<Rightarrow> 32 word \<Rightarrow> PAIR_ATTR \<Rightarrow>
   CACHETABLE_WRITE_CALLBACK \<Rightarrow> cachetable_dirty \<Rightarrow> error + PAIR \<times> cachetable" where
  "cachetable_insert_at ct cf k v h a write_callback d =
     (let p = next_pair ct
      in ebind (c_assert (p \<noteq> 0)) (\<lambda>_.
         let ct1 = ct\<lparr>pairs := (pairs ct)(p := pair_init cf k v a d h write_callback),
                      next_pair := p + 1\<rparr>
         in ebind (pair_list_put p ct1) (\<lambda>ct2.
            ebind (with_ev (add_pair_attr a) ct2) (\<lambda>ct3. Inr (p, ct3)))))"

definition value_lock :: "PAIR \<Rightarrow> cachetable \<Rightarrow> error + cachetable" where
  "value_lock p ct =
     ebind (nb_mutex_lock (value_nb_mutex (pairs ct p))) (\<lambda>m.
       Inr (set_pair p (\<lambda>x. x\<lparr>value_nb_mutex := m\<rparr>) ct))"

definition value_unlock :: "PAIR \<Rightarrow> cachetable \<Rightarrow> error + cachetable" where
  "value_unlock p ct =
     ebind (nb_mutex_unlock (value_nb_mutex (pairs ct p))) (\<lambda>m.
       Inr (set_pair p (\<lambda>x. x\<lparr>value_nb_mutex := m\<rparr>) ct))"

definition disk_lock :: "PAIR \<Rightarrow> cachetable \<Rightarrow> error + cachetable" where
  "disk_lock p ct =
     ebind (nb_mutex_lock (disk_nb_mutex (pairs ct p))) (\<lambda>m.
       Inr (set_pair p (\<lambda>x. x\<lparr>disk_nb_mutex := m\<rparr>) ct))"

definition disk_unlock :: "PAIR \<Rightarrow> cachetable \<Rightarrow> error + cachetable" where
  "disk_unlock p ct =
     ebind (nb_mutex_unlock (disk_nb_mutex (pairs ct p))) (\<lambda>m.
       Inr (set_pair p (\<lambda>x. x\<lparr>disk_nb_mutex := m\<rparr>) ct))"

text \<open>
  \<^verbatim>\<open>cachetable_put_internal\<close>, under the list's write lock. The result is the
  return value, \<open>-1\<close> for a key that is already present.
\<close>

definition cachetable_put_internal ::
  "cachetable \<Rightarrow> CACHEFILE \<Rightarrow> CACHEKEY \<Rightarrow> 32 word \<Rightarrow> voidp \<Rightarrow> PAIR_ATTR \<Rightarrow>
   CACHETABLE_WRITE_CALLBACK \<Rightarrow> funp \<Rightarrow> error + int \<times> cachetable" where
  "cachetable_put_internal ct cf k h v a write_callback put_callback =
     (case find_pair ct cf k h of
        Some p \<Rightarrow>
          ebind (c_assert (flush_callback (pairs ct p) = wc_flush_callback write_callback)) (\<lambda>_.
          ebind (c_assert (pe_callback (pairs ct p) = wc_pe_callback write_callback)) (\<lambda>_.
          ebind (c_assert (cleaner_callback (pairs ct p) = wc_cleaner_callback write_callback)) (\<lambda>_.
            Inr (- 1, ct))))
      | None \<Rightarrow>
          ebind (cachetable_insert_at (ct\<lparr>cachetable_puts := cachetable_puts ct + 1\<rparr>)
                   cf k v h a write_callback CACHETABLE_DIRTY) (\<lambda>(p, ct1).
          ebind (c_assert (p \<noteq> 0)) (\<lambda>_.
          ebind (value_lock p ct1) (\<lambda>ct2.
          ebind (c_assert (put_callback \<noteq> 0)) (\<lambda>_.
            Inr (0, emit (EV_PUT_CB put_callback v p) ct2))))))"

text \<open>
  \<^verbatim>\<open>toku_cachetable_put\<close>: a client that finds the cache above its high
  watermark sleeps until the evictor wakes it.
\<close>

definition toku_cachetable_put ::
  "cachetable \<Rightarrow> CACHEFILE \<Rightarrow> CACHEKEY \<Rightarrow> 32 word \<Rightarrow> voidp \<Rightarrow> PAIR_ATTR \<Rightarrow>
   CACHETABLE_WRITE_CALLBACK \<Rightarrow> funp \<Rightarrow> error + int \<times> cachetable" where
  "toku_cachetable_put ct cf k h v a write_callback put_callback =
     (if should_client_thread_sleep (ev ct) then Inl BLOCKED
      else cachetable_put_internal ct cf k h v a write_callback put_callback)"


subsection \<open>Writing and freeing a pair\<close>

text \<open>
  \<^verbatim>\<open>cachetable_free_pair\<close>: the last call of the flush callback for a pair, with
  the dummy values \<^verbatim>\<open>NULL\<close> and \<open>-1\<close> for the cachefile and its descriptor;
  \<open>EV_DESTROY\<close> stands for \<^verbatim>\<open>ctpair_destroy\<close>.
\<close>

definition cachetable_free_pair :: "PAIR \<Rightarrow> cachetable \<Rightarrow> cachetable" where
  "cachetable_free_pair p ct =
     (let x = pairs ct p;
          args = \<lparr>fa_cachefile = 0, fa_fd = - 1, fa_key = key x, fa_value = value_data x,
                  fa_disk_data = disk_data x, fa_write_extraargs = write_extraargs x,
                  fa_old_attr = attr x, fa_write_me = False, fa_keep_me = False,
                  fa_for_checkpoint = True, fa_is_clone = False\<rparr>;
          ct1 = ct\<lparr>cachetable_evictions := cachetable_evictions ct + 1\<rparr>;
          ct2 = emit (EV_FLUSH (flush_callback x) args) ct1
      in emit (EV_DESTROY p) ct2)"

definition cachetable_remove_pair :: "PAIR \<Rightarrow> cachetable \<Rightarrow> error + cachetable" where
  "cachetable_remove_pair p ct =
     ebind (pair_list_evict p ct) (\<lambda>ct1.
       with_ev (remove_pair_attr (attr (pairs ct1 p))) ct1)"

definition cachetable_maybe_remove_and_free_pair :: "PAIR \<Rightarrow> cachetable \<Rightarrow> error + cachetable" where
  "cachetable_maybe_remove_and_free_pair p ct =
     (if nb_mutex_users (value_nb_mutex (pairs ct p)) = 0 then
        ebind (c_assert (nb_mutex_users (disk_nb_mutex (pairs ct p)) = 0)) (\<lambda>_.
        ebind (c_assert (cloned_value_data (pairs ct p) = 0)) (\<lambda>_.
        ebind (cachetable_remove_pair p ct) (\<lambda>ct1.
          Inr (cachetable_free_pair p ct1))))
      else Inr ct)"

text \<open>
  \<^verbatim>\<open>cachetable_only_write_locked_data\<close>: the one place that asks the flush
  callback to write. It passes the pair's cachefile and reads the descriptor
  through it. The result carries what the callback stored in \<^verbatim>\<open>new_attr\<close>.
\<close>

definition cachetable_only_write_locked_data ::
  "callbacks \<Rightarrow> PAIR \<Rightarrow> bool \<Rightarrow> bool \<Rightarrow> cachetable \<Rightarrow> error + PAIR_ATTR \<times> cachetable" where
  "cachetable_only_write_locked_data cb p for_chkpt is_clone ct =
     (let x = pairs ct p; cf = cachefile x
      in if cf = 0 then Inl SEGFAULT
         else
           let args = \<lparr>fa_cachefile = cf, fa_fd = fd (files ct cf), fa_key = key x,
                     fa_value = (if is_clone then cloned_value_data x else value_data x),
                     fa_disk_data = disk_data x, fa_write_extraargs = write_extraargs x,
                     fa_old_attr = (if is_clone then make_pair_attr (cloned_value_size x) else attr x),
                     fa_write_me = True, fa_keep_me = (if is_clone then False else True),
                     fa_for_checkpoint = for_chkpt, fa_is_clone = is_clone\<rparr>;
               res = flush_result cb (flush_callback x) args;
               ct1 = emit (EV_FLUSH (flush_callback x) args) ct;
               ct2 = set_pair p (\<lambda>y. y\<lparr>disk_data := fst res\<rparr>) ct1;
               ct3 = (if is_clone then
                        (set_pair p (\<lambda>y. y\<lparr>cloned_value_data := 0, cloned_value_size := 0\<rparr>) ct2)
                          \<lparr>ev := remove_from_size_current (cloned_value_size x) (ev ct2)\<rparr>
                      else ct2)
           in Inr (snd res, ct3))"

definition cachetable_write_locked_pair ::
  "callbacks \<Rightarrow> PAIR \<Rightarrow> bool \<Rightarrow> cachetable \<Rightarrow> error + cachetable" where
  "cachetable_write_locked_pair cb p for_chkpt ct =
     (let old_attr = attr (pairs ct p)
      in ebind (disk_lock p ct) (\<lambda>ct1.
         ebind (c_assert (cloned_value_data (pairs ct1 p) = 0)) (\<lambda>_.
         ebind (if dirty (pairs ct1 p) \<noteq> CACHETABLE_CLEAN then
                  ebind (cachetable_only_write_locked_data cb p for_chkpt False ct1) (\<lambda>(new_attr, ct2).
                    if is_valid new_attr then
                      with_ev (change_pair_attr old_attr new_attr)
                        (set_pair p (\<lambda>y. y\<lparr>attr := new_attr\<rparr>) ct2)
                    else Inr ct2)
                else Inr ct1) (\<lambda>ct3.
           disk_unlock p (set_pair p (\<lambda>y. y\<lparr>dirty := CACHETABLE_CLEAN\<rparr>) ct3)))))"

definition clone_pair :: "callbacks \<Rightarrow> PAIR \<Rightarrow> cachetable \<Rightarrow> error + cachetable" where
  "clone_pair cb p ct =
     (let x = pairs ct p; old_attr = attr x;
          res = clone_result cb (clone_callback x) (value_data x) (write_extraargs x);
          new_attr = snd res;
          ct1 = emit (EV_CLONE (clone_callback x) (value_data x) (write_extraargs x)) ct;
          ct2 = set_pair p (\<lambda>y. y\<lparr>cloned_value_data := fst res, dirty := CACHETABLE_CLEAN\<rparr>) ct1
      in ebind (if is_valid new_attr then
                  with_ev (change_pair_attr old_attr new_attr)
                    (set_pair p (\<lambda>y. y\<lparr>attr := new_attr\<rparr>) ct2)
                else Inr ct2) (\<lambda>ct3.
           let sz = size_attr (attr (pairs ct3 p))
           in Inr ((set_pair p (\<lambda>y. y\<lparr>cloned_value_size := sz\<rparr>) ct3)
                     \<lparr>ev := add_to_size_current sz (ev ct3)\<rparr>)))"

definition cp_add_background_job :: "cachetable \<Rightarrow> error + cachetable" where
  "cp_add_background_job ct =
     (let res = bjm_add_background_job (m_checkpoint_clones_bjm (cp ct))
      in ebind (c_assert (fst res = 0)) (\<lambda>_.
           Inr (ct\<lparr>cp := (cp ct)\<lparr>m_checkpoint_clones_bjm := snd res\<rparr>\<rparr>)))"

definition cp_remove_background_job :: "cachetable \<Rightarrow> error + cachetable" where
  "cp_remove_background_job ct =
     ebind (bjm_remove_background_job (m_checkpoint_clones_bjm (cp ct))) (\<lambda>b.
       Inr (ct\<lparr>cp := (cp ct)\<lparr>m_checkpoint_clones_bjm := b\<rparr>\<rparr>))"

text \<open>The job of a checkpoint writer thread: \<^verbatim>\<open>checkpoint_cloned_pair\<close>.\<close>

definition checkpoint_cloned_pair :: "callbacks \<Rightarrow> PAIR \<Rightarrow> cachetable \<Rightarrow> error + cachetable" where
  "checkpoint_cloned_pair cb p ct =
     ebind (cachetable_only_write_locked_data cb p True True ct) (\<lambda>(new_attr, ct1).
     ebind (disk_unlock p ct1) cp_remove_background_job)"

definition checkpoint_cloned_pair_on_writer_thread :: "PAIR \<Rightarrow> cachetable \<Rightarrow> cachetable" where
  "checkpoint_cloned_pair_on_writer_thread p ct =
     ct\<lparr>checkpointing_kibbutz := checkpointing_kibbutz ct @ [JOB_CHECKPOINT_CLONED_PAIR p]\<rparr>"

definition write_locked_pair_for_checkpoint ::
  "callbacks \<Rightarrow> PAIR \<Rightarrow> bool \<Rightarrow> cachetable \<Rightarrow> error + cachetable" where
  "write_locked_pair_for_checkpoint cb p chkpt_pending ct =
     (if dirty (pairs ct p) \<noteq> CACHETABLE_CLEAN \<and> chkpt_pending then
        if clone_callback (pairs ct p) \<noteq> 0 then
          ebind (disk_lock p ct) (\<lambda>ct1.
          ebind (c_assert (cloned_value_data (pairs ct1 p) = 0)) (\<lambda>_.
          ebind (clone_pair cb p ct1) (\<lambda>ct2.
          ebind (c_assert (cloned_value_data (pairs ct2 p) \<noteq> 0)) (\<lambda>_.
          ebind (cp_add_background_job ct2) (\<lambda>ct3.
            Inr (checkpoint_cloned_pair_on_writer_thread p ct3))))))
        else cachetable_write_locked_pair cb p True ct
      else Inr ct)"

text \<open>
  \<^verbatim>\<open>write_pair_for_checkpoint_thread\<close>, run by the checkpoint thread on a pair it
  took off the pending list. A clone is written by the checkpoint thread itself,
  after it gave the value lock back.
\<close>

definition write_pair_for_checkpoint_thread ::
  "callbacks \<Rightarrow> PAIR \<Rightarrow> cachetable \<Rightarrow> error + cachetable" where
  "write_pair_for_checkpoint_thread cb p ct =
     ebind (value_lock p ct) (\<lambda>ct1.
       if dirty (pairs ct1 p) \<noteq> CACHETABLE_CLEAN \<and> checkpoint_pending (pairs ct1 p) then
         ebind (if clone_callback (pairs ct1 p) \<noteq> 0 then
                  ebind (disk_lock p ct1) (\<lambda>ct2.
                  ebind (c_assert (cloned_value_data (pairs ct2 p) = 0)) (\<lambda>_.
                  ebind (clone_pair cb p ct2) (\<lambda>ct3.
                  ebind (c_assert (cloned_value_data (pairs ct3 p) \<noteq> 0)) (\<lambda>_. Inr ct3))))
                else cachetable_write_locked_pair cb p True ct1) (\<lambda>ct4.
         ebind (value_unlock p (set_pair p (\<lambda>y. y\<lparr>checkpoint_pending := False\<rparr>) ct4)) (\<lambda>ct5.
           if clone_callback (pairs ct5 p) \<noteq> 0 then
             ebind (cachetable_only_write_locked_data cb p True True ct5) (\<lambda>(a, ct6).
               disk_unlock p ct6)
           else Inr ct5))
       else value_unlock p (set_pair p (\<lambda>y. y\<lparr>checkpoint_pending := False\<rparr>) ct1))"

text \<open>
  \<^verbatim>\<open>checkpoint_dependent_pairs\<close>: the dependent pairs come with the pending bit
  read off each and with the dirtiness the caller declares.
\<close>

fun checkpoint_dependent_pairs ::
  "callbacks \<Rightarrow> (PAIR \<times> bool \<times> cachetable_dirty) list \<Rightarrow> cachetable \<Rightarrow> error + cachetable" where
  "checkpoint_dependent_pairs cb [] ct = Inr ct"
| "checkpoint_dependent_pairs cb ((curr_dep_pair, chkpt_pending, dep_dirty) # rest) ct =
     (let ct1 = (if dep_dirty \<noteq> CACHETABLE_CLEAN
                 then set_pair curr_dep_pair (\<lambda>y. y\<lparr>dirty := CACHETABLE_DIRTY\<rparr>) ct else ct)
      in ebind (if chkpt_pending
                then write_locked_pair_for_checkpoint cb curr_dep_pair chkpt_pending ct1
                else Inr ct1)
           (checkpoint_dependent_pairs cb rest))"

fun get_pairs ::
  "cachetable \<Rightarrow> (CACHEFILE \<times> CACHEKEY \<times> 32 word) list \<Rightarrow> error + PAIR list" where
  "get_pairs ct [] = Inr []"
| "get_pairs ct ((cf, k, h) # rest) =
     (case find_pair ct cf k h of
        None \<Rightarrow> Inl ASSERT_FAILED
      | Some p \<Rightarrow>
          ebind (c_assert (nb_mutex_writers (value_nb_mutex (pairs ct p)) \<noteq> 0)) (\<lambda>_.
          ebind (get_pairs ct rest) (\<lambda>ps. Inr (p # ps))))"

text \<open>Reading and clearing the pending bits of the dependent pairs, one after the other.\<close>

fun collect_pending :: "PAIR list \<Rightarrow> cachetable \<Rightarrow> bool list \<times> cachetable" where
  "collect_pending [] ct = ([], ct)"
| "collect_pending (p # ps) ct =
     (let b = checkpoint_pending (pairs ct p);
          r = collect_pending ps (set_pair p (\<lambda>y. y\<lparr>checkpoint_pending := False\<rparr>) ct)
      in (b # fst r, snd r))"

definition get_checkpoint_pending :: "PAIR \<Rightarrow> cachetable \<Rightarrow> bool \<times> cachetable" where
  "get_checkpoint_pending p ct =
     (checkpoint_pending (pairs ct p),
      set_pair p (\<lambda>y. y\<lparr>checkpoint_pending := False\<rparr>) ct)"

definition resolve_checkpointing_fast :: "ctpair \<Rightarrow> bool \<Rightarrow> bool" where
  "resolve_checkpointing_fast x chkpt_pending \<longleftrightarrow>
     \<not> (chkpt_pending \<and> dirty x = CACHETABLE_DIRTY \<and> clone_callback x = 0)"

definition checkpoint_pair_and_dependent_pairs ::
  "callbacks \<Rightarrow> PAIR \<Rightarrow> bool \<Rightarrow> (PAIR \<times> bool \<times> cachetable_dirty) list \<Rightarrow> cachetable \<Rightarrow>
   error + cachetable" where
  "checkpoint_pair_and_dependent_pairs cb p p_is_pending_checkpoint deps ct =
     ebind (write_locked_pair_for_checkpoint cb p p_is_pending_checkpoint ct)
       (checkpoint_dependent_pairs cb deps)"


subsection \<open>Fetching\<close>

definition do_partial_fetch ::
  "callbacks \<Rightarrow> CACHEFILE \<Rightarrow> PAIR \<Rightarrow> funp \<Rightarrow> voidp \<Rightarrow> bool \<Rightarrow> cachetable \<Rightarrow> error + cachetable" where
  "do_partial_fetch cb cf p pf_callback read_extraargs keep_pair_locked ct =
     (let x = pairs ct p; old_attr = attr x
      in ebind (c_assert (dirty x = CACHETABLE_CLEAN)) (\<lambda>_.
         ebind (disk_lock p ct) (\<lambda>ct1.
           let res = pf_result cb pf_callback (value_data x) (disk_data x) read_extraargs
                       (fd (files ct1 cf));
               ct2 = emit (EV_PF pf_callback (value_data x) (disk_data x) read_extraargs
                       (fd (files ct1 cf))) ct1
           in ebind (c_assert (fst res = 0)) (\<lambda>_.
              ebind (with_ev (change_pair_attr old_attr (snd res))
                       (set_pair p (\<lambda>y. y\<lparr>attr := snd res\<rparr>) ct2)) (\<lambda>ct3.
              ebind (disk_unlock p ct3) (\<lambda>ct4.
                if \<not> keep_pair_locked then value_unlock p ct4 else Inr ct4))))))"

definition cachetable_fetch_pair ::
  "callbacks \<Rightarrow> CACHEFILE \<Rightarrow> PAIR \<Rightarrow> funp \<Rightarrow> voidp \<Rightarrow> bool \<Rightarrow> cachetable \<Rightarrow> error + cachetable" where
  "cachetable_fetch_pair cb cf p fetch_callback read_extraargs keep_pair_locked ct =
     (let x = pairs ct p
      in ebind (disk_lock p ct) (\<lambda>ct1.
           let res = fetch_cb_result cb fetch_callback cf p (fd (files ct1 cf)) (key x)
                       (fullhash x) read_extraargs;
               ct2 = emit (EV_FETCH fetch_callback cf p (fd (files ct1 cf)) (key x)
                       (fullhash x) read_extraargs) ct1;
               ct3 = (if fr_dirty res \<noteq> 0
                      then set_pair p (\<lambda>y. y\<lparr>dirty := CACHETABLE_DIRTY\<rparr>) ct2 else ct2)
           in ebind (c_assert (fr_r res = 0)) (\<lambda>_.
              ebind (with_ev (add_pair_attr (fr_attr res))
                       (set_pair p (\<lambda>y. y\<lparr>value_data := fr_value res,
                          disk_data := fr_disk_data res, attr := fr_attr res\<rparr>) ct3)) (\<lambda>ct4.
              ebind (disk_unlock p ct4) (\<lambda>ct5.
                if \<not> keep_pair_locked then value_unlock p ct5 else Inr ct5)))))"

subsection \<open>Pinning\<close>

text \<open>
  \<^verbatim>\<open>try_pin_pair\<close>. The result says whether the caller must try again. The
  juggling of the list's read lock (\<^verbatim>\<open>have_read_list_lock\<close>) has no effect on the
  state of an atomic step.
\<close>

definition try_pin_pair ::
  "callbacks \<Rightarrow> PAIR \<Rightarrow> cachetable \<Rightarrow> CACHEFILE \<Rightarrow> bool \<Rightarrow> PAIR list \<Rightarrow> cachetable_dirty list \<Rightarrow>
   funp \<Rightarrow> funp \<Rightarrow> voidp \<Rightarrow> error + bool \<times> cachetable" where
  "try_pin_pair cb p ct cf may_modify_value dependent_pairs dependent_dirty
     pf_req_callback pf_callback read_extraargs =
     ebind (value_lock p ct) (\<lambda>ct0.
       let ct1 = set_pair p pair_touch ct0
       in ebind (if may_modify_value then
                   let p_checkpoint_pending = checkpoint_pending (pairs ct1 p);
                       ct2 = set_pair p (\<lambda>y. y\<lparr>checkpoint_pending := False\<rparr>) ct1;
                       dep = collect_pending dependent_pairs ct2
                   in checkpoint_pair_and_dependent_pairs cb p p_checkpoint_pending
                        (zip dependent_pairs (zip (fst dep) dependent_dirty)) (snd dep)
                 else Inr ct1) (\<lambda>ct3.
            let partial_fetch_required =
                  pf_req_result cb pf_req_callback (value_data (pairs ct3 p)) read_extraargs;
                ct4 = emit (EV_PF_REQ pf_req_callback (value_data (pairs ct3 p)) read_extraargs) ct3
            in if \<not> partial_fetch_required then Inr (False, ct4)
               else if should_client_thread_sleep (ev ct4) then
                 ebind (value_unlock p ct4) (\<lambda>ct5. Inr (True, ct5))
               else
                 ebind (c_assert (dirty (pairs ct4 p) = CACHETABLE_CLEAN)) (\<lambda>_.
                 ebind (do_partial_fetch cb cf p pf_callback read_extraargs True ct4) (\<lambda>ct5.
                   Inr (False, ct5)))))"

datatype pin_outcome = GOT_VALUE voidp int | WAIT_FOR_CACHE_PRESSURE

text \<open>
  One pass through \<^verbatim>\<open>toku_cachetable_get_and_pin_with_dep_pairs_batched\<close>, from
  \<^verbatim>\<open>beginning\<close> to \<^verbatim>\<open>got_value\<close> or to the \<^verbatim>\<open>goto beginning\<close> that makes the
  client sleep in \<^verbatim>\<open>wait_for_cache_pressure_to_subside\<close> before it starts over.
  \<open>GOT_VALUE\<close> carries \<^verbatim>\<open>*value\<close> and \<^verbatim>\<open>*sizep\<close>.
\<close>

definition got_value :: "PAIR \<Rightarrow> cachetable \<Rightarrow> error + pin_outcome \<times> cachetable" where
  "got_value p ct = Inr (GOT_VALUE (value_data (pairs ct p)) (size_attr (attr (pairs ct p))), ct)"

definition pin_found ::
  "callbacks \<Rightarrow> PAIR \<Rightarrow> cachetable \<Rightarrow> CACHEFILE \<Rightarrow> bool \<Rightarrow> PAIR list \<Rightarrow> cachetable_dirty list \<Rightarrow>
   funp \<Rightarrow> funp \<Rightarrow> voidp \<Rightarrow> error + pin_outcome \<times> cachetable" where
  "pin_found cb p ct cf may_modify_value dependent_pairs dependent_dirty
     pf_req_callback pf_callback read_extraargs =
     ebind (try_pin_pair cb p ct cf may_modify_value dependent_pairs dependent_dirty
              pf_req_callback pf_callback read_extraargs) (\<lambda>(try_again, ct1).
       if try_again then Inr (WAIT_FOR_CACHE_PRESSURE, ct1) else got_value p ct1)"

definition toku_cachetable_get_and_pin_with_dep_pairs_batched ::
  "callbacks \<Rightarrow> cachetable \<Rightarrow> CACHEFILE \<Rightarrow> CACHEKEY \<Rightarrow> 32 word \<Rightarrow> CACHETABLE_WRITE_CALLBACK \<Rightarrow>
   funp \<Rightarrow> funp \<Rightarrow> funp \<Rightarrow> bool \<Rightarrow> voidp \<Rightarrow> (CACHEFILE \<times> CACHEKEY \<times> 32 word) list \<Rightarrow>
   cachetable_dirty list \<Rightarrow> error + pin_outcome \<times> cachetable" where
  "toku_cachetable_get_and_pin_with_dep_pairs_batched cb ct cf k h write_callback
     fetch_callback pf_req_callback pf_callback may_modify_value read_extraargs
     dependents dependent_dirty =
     ebind (get_pairs ct dependents) (\<lambda>dependent_pairs.
       case find_pair ct cf k h of
         Some p \<Rightarrow>
           pin_found cb p ct cf may_modify_value dependent_pairs dependent_dirty
             pf_req_callback pf_callback read_extraargs
       | None \<Rightarrow>
           if should_client_thread_sleep (ev ct) then Inr (WAIT_FOR_CACHE_PRESSURE, ct)
           else
             (case find_pair ct cf k h of
                Some p \<Rightarrow>
                  pin_found cb p ct cf may_modify_value dependent_pairs dependent_dirty
                    pf_req_callback pf_callback read_extraargs
              | None \<Rightarrow>
                  ebind (cachetable_insert_at ct cf k zero_value h zero_attr write_callback
                           CACHETABLE_CLEAN) (\<lambda>(p, ct1).
                  ebind (c_assert (p \<noteq> 0)) (\<lambda>_.
                  ebind (value_lock p ct1) (\<lambda>ct2.
                  ebind (if may_modify_value then
                           ebind (c_assert (\<not> checkpoint_pending (pairs ct2 p))) (\<lambda>_.
                             let dep = collect_pending dependent_pairs ct2
                             in checkpoint_dependent_pairs cb
                                  (zip dependent_pairs (zip (fst dep) dependent_dirty)) (snd dep))
                         else Inr ct2) (\<lambda>ct3.
                  ebind (cachetable_fetch_pair cb cf p fetch_callback read_extraargs True ct3) (\<lambda>ct4.
                    got_value p (ct4\<lparr>cachetable_miss := cachetable_miss ct4 + 1\<rparr>))))))))"

definition toku_cachetable_get_and_pin ::
  "callbacks \<Rightarrow> cachetable \<Rightarrow> CACHEFILE \<Rightarrow> CACHEKEY \<Rightarrow> 32 word \<Rightarrow> CACHETABLE_WRITE_CALLBACK \<Rightarrow>
   funp \<Rightarrow> funp \<Rightarrow> funp \<Rightarrow> bool \<Rightarrow> voidp \<Rightarrow> error + pin_outcome \<times> cachetable" where
  "toku_cachetable_get_and_pin cb ct cf k h write_callback fetch_callback pf_req_callback
     pf_callback may_modify_value read_extraargs =
     toku_cachetable_get_and_pin_with_dep_pairs_batched cb ct cf k h write_callback
       fetch_callback pf_req_callback pf_callback may_modify_value read_extraargs [] []"

text \<open>
  The two try-pins. The result is the return value and, on success, \<^verbatim>\<open>*value\<close>.
\<close>

definition toku_cachetable_maybe_get_and_pin ::
  "cachetable \<Rightarrow> CACHEFILE \<Rightarrow> CACHEKEY \<Rightarrow> 32 word \<Rightarrow> error + (int \<times> voidp option) \<times> cachetable" where
  "toku_cachetable_maybe_get_and_pin ct cf k h =
     (case find_pair ct cf k h of
        Some p \<Rightarrow>
          if dirty (pairs ct p) \<noteq> CACHETABLE_CLEAN \<and>
             nb_mutex_users (value_nb_mutex (pairs ct p)) = 0
          then
            ebind (value_lock p ct) (\<lambda>ct1.
              if checkpoint_pending (pairs ct1 p) then
                ebind (value_unlock p ct1) (\<lambda>ct2. Inr ((- 1, None), ct2))
              else Inr ((0, Some (value_data (pairs ct1 p))), ct1))
          else Inr ((- 1, None), ct)
      | None \<Rightarrow> Inr ((- 1, None), ct))"

definition toku_cachetable_maybe_get_and_pin_clean ::
  "cachetable \<Rightarrow> CACHEFILE \<Rightarrow> CACHEKEY \<Rightarrow> 32 word \<Rightarrow> error + (int \<times> voidp option) \<times> cachetable" where
  "toku_cachetable_maybe_get_and_pin_clean ct cf k h =
     (case find_pair ct cf k h of
        Some p \<Rightarrow>
          if nb_mutex_users (value_nb_mutex (pairs ct p)) = 0
          then
            ebind (value_lock p ct) (\<lambda>ct1.
              if checkpoint_pending (pairs ct1 p) then
                ebind (value_unlock p ct1) (\<lambda>ct2. Inr ((- 1, None), ct2))
              else Inr ((0, Some (value_data (pairs ct1 p))), ct1))
          else Inr ((- 1, None), ct)
      | None \<Rightarrow> Inr ((- 1, None), ct))"

subsection \<open>Unpinning and removing\<close>

text \<open>
  \<^verbatim>\<open>cachetable_unpin_internal\<close>. A client that grew the pair above the high
  watermark sleeps at the very end, after the unpin took effect.
\<close>

definition cachetable_unpin_internal ::
  "cachetable \<Rightarrow> CACHEFILE \<Rightarrow> PAIR \<Rightarrow> cachetable_dirty \<Rightarrow> PAIR_ATTR \<Rightarrow> bool \<Rightarrow> bool \<Rightarrow>
   error + int \<times> cachetable" where
  "cachetable_unpin_internal ct cf p d a have_ct_lock flush =
     ebind (c_assert (p \<noteq> 0)) (\<lambda>_.
       let old_attr = attr (pairs ct p)
       in ebind (c_assert (nb_mutex_writers (value_nb_mutex (pairs ct p)) > 0)) (\<lambda>_.
          let ct1 = (if d \<noteq> CACHETABLE_CLEAN
                     then set_pair p (\<lambda>y. y\<lparr>dirty := CACHETABLE_DIRTY\<rparr>) ct else ct);
              ct2 = (if is_valid a then set_pair p (\<lambda>y. y\<lparr>attr := a\<rparr>) ct1 else ct1)
          in ebind (value_unlock p ct2) (\<lambda>ct3.
             ebind (if is_valid a then with_ev (change_pair_attr old_attr a) ct3 else Inr ct3) (\<lambda>ct4.
               Inr (0, ct4)))))"

definition toku_cachetable_unpin ::
  "cachetable \<Rightarrow> CACHEFILE \<Rightarrow> PAIR \<Rightarrow> cachetable_dirty \<Rightarrow> PAIR_ATTR \<Rightarrow> error + int \<times> cachetable" where
  "toku_cachetable_unpin ct cf p d a = cachetable_unpin_internal ct cf p d a False True"

definition toku_cachetable_unpin_ct_prelocked_no_flush ::
  "cachetable \<Rightarrow> CACHEFILE \<Rightarrow> PAIR \<Rightarrow> cachetable_dirty \<Rightarrow> PAIR_ATTR \<Rightarrow> error + int \<times> cachetable" where
  "toku_cachetable_unpin_ct_prelocked_no_flush ct cf p d a =
     cachetable_unpin_internal ct cf p d a True False"

definition toku_cachetable_unpin_and_remove ::
  "cachetable \<Rightarrow> CACHEFILE \<Rightarrow> PAIR \<Rightarrow> funp \<Rightarrow> voidp \<Rightarrow> error + int \<times> cachetable" where
  "toku_cachetable_unpin_and_remove ct cf p remove_key remove_key_extra =
     ebind (c_assert (p \<noteq> 0)) (\<lambda>_.
       let ct1 = set_pair p (\<lambda>y. y\<lparr>dirty := CACHETABLE_CLEAN\<rparr>) ct
       in ebind (c_assert (nb_mutex_writers (value_nb_mutex (pairs ct1 p)) \<noteq> 0)) (\<lambda>_.
          ebind (disk_lock p ct1) (\<lambda>ct2.
          ebind (c_assert (cloned_value_data (pairs ct2 p) = 0)) (\<lambda>_.
            let for_chkpt = checkpoint_pending (pairs ct2 p);
                key_to_remove = key (pairs ct2 p);
                ct3 = set_pair p (\<lambda>y. y\<lparr>checkpoint_pending := False, dirty := CACHETABLE_CLEAN,
                        attr := (attr y)\<lparr>cache_pressure_size := 0\<rparr>\<rparr>) ct2;
                ct4 = (if remove_key \<noteq> 0
                       then emit (EV_REMOVE_KEY remove_key key_to_remove for_chkpt remove_key_extra) ct3
                       else ct3)
            in ebind (value_unlock p ct4) (\<lambda>ct5.
               ebind (disk_unlock p ct5) (\<lambda>ct6.
               ebind (cachetable_remove_pair p ct6) (\<lambda>ct7.
               ebind (if nb_mutex_blocked_writers (value_nb_mutex (pairs ct7 p)) > 0 then
                        ebind (c_assert (\<not> checkpoint_pending (pairs ct7 p))) (\<lambda>_.
                          c_assert (cache_pressure_size (attr (pairs ct7 p)) = 0))
                      else Inr ()) (\<lambda>_.
               ebind (c_assert (nb_mutex_users (disk_nb_mutex (pairs ct7 p)) = 0)) (\<lambda>_.
               ebind (c_assert (cloned_value_data (pairs ct7 p) = 0)) (\<lambda>_.
                 Inr (0, cachetable_free_pair p ct7)))))))))))"


subsection \<open>The evictor\<close>

definition cf_add_background_job :: "CACHEFILE \<Rightarrow> cachetable \<Rightarrow> int \<times> cachetable" where
  "cf_add_background_job cf ct =
     (let res = bjm_add_background_job (cf_bjm (files ct cf))
      in (fst res, set_file cf (\<lambda>f. f\<lparr>cf_bjm := snd res\<rparr>) ct))"

definition cf_remove_background_job :: "CACHEFILE \<Rightarrow> cachetable \<Rightarrow> error + cachetable" where
  "cf_remove_background_job cf ct =
     ebind (bjm_remove_background_job (cf_bjm (files ct cf))) (\<lambda>b.
       Inr (set_file cf (\<lambda>f. f\<lparr>cf_bjm := b\<rparr>) ct))"

definition do_partial_eviction :: "callbacks \<Rightarrow> PAIR \<Rightarrow> cachetable \<Rightarrow> error + cachetable" where
  "do_partial_eviction cb p ct =
     (let x = pairs ct p; old_attr = attr x;
          new_attr = pe_result cb (pe_callback x) (value_data x) old_attr (write_extraargs x);
          ct1 = emit (EV_PE (pe_callback x) (value_data x) old_attr (write_extraargs x)) ct
      in ebind (with_ev (change_pair_attr old_attr new_attr) ct1) (\<lambda>ct2.
         ebind (with_ev (decrease_size_evicting (size_evicting_estimate x))
                  (set_pair p (\<lambda>y. y\<lparr>attr := new_attr\<rparr>) ct2)) (\<lambda>ct3.
           value_unlock p ct3)))"

definition evict_pair :: "callbacks \<Rightarrow> PAIR \<Rightarrow> bool \<Rightarrow> cachetable \<Rightarrow> error + cachetable" where
  "evict_pair cb p for_chkpt ct =
     ebind (if dirty (pairs ct p) \<noteq> CACHETABLE_CLEAN
            then cachetable_write_locked_pair cb p for_chkpt ct else Inr ct) (\<lambda>ct1.
     ebind (with_ev (decrease_size_evicting (size_evicting_estimate (pairs ct1 p))) ct1) (\<lambda>ct2.
     ebind (disk_lock p ct2) (\<lambda>ct3.
     ebind (value_unlock p ct3) (\<lambda>ct4.
     ebind (disk_unlock p ct4) (\<lambda>ct5.
       cachetable_maybe_remove_and_free_pair p ct5)))))"

definition try_evict_pair :: "callbacks \<Rightarrow> PAIR \<Rightarrow> cachetable \<Rightarrow> error + cachetable" where
  "try_evict_pair cb p ct =
     (let cf = cachefile (pairs ct p)
      in ebind (c_assert (nb_mutex_users (value_nb_mutex (pairs ct p)) = 0)) (\<lambda>_.
         ebind (value_lock p ct) (\<lambda>ct1.
           if dirty (pairs ct1 p) = CACHETABLE_CLEAN \<and>
              nb_mutex_writers (disk_nb_mutex (pairs ct1 p)) = 0
           then
             ebind (evict_pair cb p False
                      (set_pair p (\<lambda>y. y\<lparr>size_evicting_estimate := 0\<rparr>) ct1))
               (cf_remove_background_job cf)
           else
             ebind (c_assert (m_size_evicting (ev ct1) \<ge> 0)) (\<lambda>_.
               let est = size_attr (attr (pairs ct1 p));
                   ct2 = (set_pair p (\<lambda>y. y\<lparr>size_evicting_estimate := est\<rparr>) ct1)
                           \<lparr>ev := (ev ct1)\<lparr>m_size_evicting := m_size_evicting (ev ct1) + est\<rparr>\<rparr>
               in ebind (c_assert (m_size_evicting (ev ct2) \<ge> 0)) (\<lambda>_.
                    Inr (ct2\<lparr>ct_kibbutz := ct_kibbutz ct2 @ [JOB_EVICTER p]\<rparr>))))))"

text \<open>
  \<^verbatim>\<open>run_eviction_on_pair\<close>, what the evictor does with the pair its clock hand is
  on. The result says whether eviction ran on the pair.
\<close>

definition run_eviction_on_pair ::
  "callbacks \<Rightarrow> PAIR \<Rightarrow> cachetable \<Rightarrow> error + bool \<times> cachetable" where
  "run_eviction_on_pair cb curr_in_clock ct =
     (let cf = cachefile (pairs ct curr_in_clock);
          res = cf_add_background_job cf ct
      in if fst res \<noteq> 0 then Inr (False, ct)
         else
           let ct1 = snd res
           in if nb_mutex_users (value_nb_mutex (pairs ct1 curr_in_clock)) \<noteq> 0 \<or>
                 nb_mutex_users (disk_nb_mutex (pairs ct1 curr_in_clock)) \<noteq> 0
              then ebind (cf_remove_background_job cf ct1) (\<lambda>ct2. Inr (False, ct2))
              else if count (pairs ct1 curr_in_clock) > 0 then
                let ct2 = set_pair curr_in_clock (\<lambda>y. y\<lparr>count := count y - 1\<rparr>) ct1
                in ebind (value_lock curr_in_clock ct2) (\<lambda>ct3.
                     let x = pairs ct3 curr_in_clock;
                         est = pe_est_result cb (pe_est_callback x) (value_data x) (disk_data x)
                                 (write_extraargs x);
                         ct4 = emit (EV_PE_EST (pe_est_callback x) (value_data x) (disk_data x)
                                 (write_extraargs x)) ct3
                     in case snd est of
                          PE_CHEAP \<Rightarrow>
                            ebind (do_partial_eviction cb curr_in_clock
                                     (set_pair curr_in_clock
                                        (\<lambda>y. y\<lparr>size_evicting_estimate := 0\<rparr>) ct4)) (\<lambda>ct5.
                            ebind (cf_remove_background_job cf ct5) (\<lambda>ct6. Inr (True, ct6)))
                        | PE_EXPENSIVE \<Rightarrow>
                            if fst est > 0 then
                              let ct5 = (set_pair curr_in_clock
                                           (\<lambda>y. y\<lparr>size_evicting_estimate := fst est\<rparr>) ct4)
                                          \<lparr>ev := (ev ct4)\<lparr>m_size_evicting :=
                                                   m_size_evicting (ev ct4) + fst est\<rparr>\<rparr>
                              in Inr (True, ct5\<lparr>ct_kibbutz :=
                                        ct_kibbutz ct5 @ [JOB_PARTIAL_EVICTION curr_in_clock]\<rparr>)
                            else
                              ebind (value_unlock curr_in_clock ct4) (\<lambda>ct5.
                              ebind (cf_remove_background_job cf ct5) (\<lambda>ct6. Inr (True, ct6))))
              else
                ebind (try_evict_pair cb curr_in_clock ct1) (\<lambda>ct2. Inr (True, ct2)))"

text \<open>The jobs of the worker threads.\<close>

definition cachetable_evicter :: "callbacks \<Rightarrow> PAIR \<Rightarrow> cachetable \<Rightarrow> error + cachetable" where
  "cachetable_evicter cb p ct =
     (let cf = cachefile (pairs ct p);
          for_chkpt = checkpoint_pending (pairs ct p);
          ct1 = set_pair p (\<lambda>y. y\<lparr>checkpoint_pending := False\<rparr>) ct
      in ebind (evict_pair cb p for_chkpt ct1) (cf_remove_background_job cf))"

definition cachetable_partial_eviction :: "callbacks \<Rightarrow> PAIR \<Rightarrow> cachetable \<Rightarrow> error + cachetable" where
  "cachetable_partial_eviction cb p ct =
     (let cf = cachefile (pairs ct p)
      in ebind (do_partial_eviction cb p ct) (cf_remove_background_job cf))"

definition cachetable_reader :: "callbacks \<Rightarrow> PAIR \<Rightarrow> funp \<Rightarrow> voidp \<Rightarrow> cachetable \<Rightarrow> error + cachetable" where
  "cachetable_reader cb p fetch_callback read_extraargs ct =
     (let cf = cachefile (pairs ct p)
      in ebind (cachetable_fetch_pair cb cf p fetch_callback read_extraargs False ct)
           (cf_remove_background_job cf))"

definition cachetable_partial_reader :: "callbacks \<Rightarrow> PAIR \<Rightarrow> funp \<Rightarrow> voidp \<Rightarrow> cachetable \<Rightarrow> error + cachetable" where
  "cachetable_partial_reader cb p pf_callback read_extraargs ct =
     (let cf = cachefile (pairs ct p)
      in ebind (do_partial_fetch cb cf p pf_callback read_extraargs False ct)
           (cf_remove_background_job cf))"

definition cachetable_flush_pair_for_close :: "callbacks \<Rightarrow> PAIR \<Rightarrow> cachetable \<Rightarrow> error + cachetable" where
  "cachetable_flush_pair_for_close cb p ct =
     ebind (cachetable_only_write_locked_data cb p False False ct) (\<lambda>(a, ct1).
       Inr (set_pair p (\<lambda>y. y\<lparr>dirty := CACHETABLE_CLEAN\<rparr>) ct1))"

definition run_job :: "callbacks \<Rightarrow> job \<Rightarrow> cachetable \<Rightarrow> error + cachetable" where
  "run_job cb j ct =
     (case j of
        JOB_EVICTER p \<Rightarrow> cachetable_evicter cb p ct
      | JOB_PARTIAL_EVICTION p \<Rightarrow> cachetable_partial_eviction cb p ct
      | JOB_CHECKPOINT_CLONED_PAIR p \<Rightarrow> checkpoint_cloned_pair cb p ct
      | JOB_READER p f e \<Rightarrow> cachetable_reader cb p f e ct
      | JOB_PARTIAL_READER p f e \<Rightarrow> cachetable_partial_reader cb p f e ct
      | JOB_FLUSH_PAIR_FOR_CLOSE p \<Rightarrow> cachetable_flush_pair_for_close cb p ct)"

fun run_jobs :: "callbacks \<Rightarrow> job list \<Rightarrow> cachetable \<Rightarrow> error + cachetable" where
  "run_jobs cb [] ct = Inr ct"
| "run_jobs cb (j # js) ct = ebind (run_job cb j ct) (run_jobs cb js)"

subsection \<open>Prefetching\<close>

definition toku_cachefile_prefetch ::
  "callbacks \<Rightarrow> cachetable \<Rightarrow> CACHEFILE \<Rightarrow> CACHEKEY \<Rightarrow> 32 word \<Rightarrow> CACHETABLE_WRITE_CALLBACK \<Rightarrow>
   funp \<Rightarrow> funp \<Rightarrow> funp \<Rightarrow> voidp \<Rightarrow> error + bool \<times> cachetable" where
  "toku_cachefile_prefetch cb ct cf k h write_callback fetch_callback pf_req_callback
     pf_callback read_extraargs =
     (if should_client_thread_sleep (ev ct) then Inr (False, ct)
      else
        case find_pair ct cf k h of
          None \<Rightarrow>
            let ct0 = ct\<lparr>cachetable_prefetches := cachetable_prefetches ct + 1\<rparr>;
                res = cf_add_background_job cf ct0
            in ebind (c_assert (fst res = 0)) (\<lambda>_.
               ebind (cachetable_insert_at (snd res) cf k zero_value h zero_attr write_callback
                        CACHETABLE_CLEAN) (\<lambda>(p, ct1).
               ebind (c_assert (p \<noteq> 0)) (\<lambda>_.
               ebind (value_lock p ct1) (\<lambda>ct2.
                 Inr (True, ct2\<lparr>ct_kibbutz :=
                        ct_kibbutz ct2 @ [JOB_READER p fetch_callback read_extraargs]\<rparr>)))))
        | Some p \<Rightarrow>
            if nb_mutex_users (value_nb_mutex (pairs ct p)) = 0 then
              ebind (value_lock p (set_pair p pair_touch ct)) (\<lambda>ct1.
                let partial_fetch_required =
                      pf_req_result cb pf_req_callback (value_data (pairs ct1 p)) read_extraargs;
                    ct2 = emit (EV_PF_REQ pf_req_callback (value_data (pairs ct1 p))
                            read_extraargs) ct1
                in if partial_fetch_required then
                     let res = cf_add_background_job cf ct2
                     in ebind (c_assert (fst res = 0)) (\<lambda>_.
                          Inr (True, (snd res)\<lparr>ct_kibbutz := ct_kibbutz (snd res) @
                                 [JOB_PARTIAL_READER p pf_callback read_extraargs]\<rparr>))
                   else ebind (value_unlock p ct2) (\<lambda>ct3. Inr (False, ct3)))
            else Inr (False, ct))"

subsection \<open>The cleaner\<close>

definition cleaner_thread_rate_pair :: "ctpair \<Rightarrow> int" where
  "cleaner_thread_rate_pair x = cache_pressure_size (attr x)"

definition CLEANER_N_TO_CHECK :: nat where
  "CLEANER_N_TO_CHECK = 8"

text \<open>
  The \<^verbatim>\<open>do ... while\<close> of \<^verbatim>\<open>run_cleaner\<close> that selects the pair to clean. Its
  state is the cleaner head, the best pair so far, the number of pairs rated and
  the best score; its result the head it stops at and the pair it chose. On a ring
  that never leads back to the first pair it would not end.
\<close>

partial_function (option) cleaner_select ::
  "cachetable \<Rightarrow> PAIR \<Rightarrow> PAIR \<Rightarrow> PAIR option \<Rightarrow> nat \<Rightarrow> int \<Rightarrow> (PAIR \<times> PAIR option) option" where
  "cleaner_select ct first_pair head best_pair n_seen best_score =
     (if nb_mutex_users (value_nb_mutex (pairs ct head)) > 0 then
        (if ring_next (m_clock (list ct)) head \<noteq> first_pair \<and> n_seen < CLEANER_N_TO_CHECK
         then cleaner_select ct first_pair (ring_next (m_clock (list ct)) head)
                best_pair n_seen best_score
         else Some (ring_next (m_clock (list ct)) head, best_pair))
      else if cleaner_thread_rate_pair (pairs ct head) > best_score then
        (if ring_next (m_clock (list ct)) head \<noteq> first_pair \<and> n_seen + 1 < CLEANER_N_TO_CHECK
         then cleaner_select ct first_pair (ring_next (m_clock (list ct)) head)
                (Some head) (n_seen + 1) (cleaner_thread_rate_pair (pairs ct head))
         else Some (ring_next (m_clock (list ct)) head, Some head))
      else
        (if ring_next (m_clock (list ct)) head \<noteq> first_pair \<and> n_seen + 1 < CLEANER_N_TO_CHECK
         then cleaner_select ct first_pair (ring_next (m_clock (list ct)) head)
                best_pair (n_seen + 1) best_score
         else Some (ring_next (m_clock (list ct)) head, best_pair)))"

datatype probe_outcome = PROBE_CONTINUE | PROBE_BREAK

text \<open>
  The cleaner callback has to release the value lock of the pair it is given; of
  what it does, the model keeps the call and this release.
\<close>

definition cleaner_clean :: "callbacks \<Rightarrow> PAIR \<Rightarrow> cachetable \<Rightarrow> error + cachetable" where
  "cleaner_clean cb best_pair ct =
     (let cf = cachefile (pairs ct best_pair); res = cf_add_background_job cf ct
      in if fst res \<noteq> 0 then Inr ct
         else
           ebind (value_lock best_pair (snd res)) (\<lambda>ct1.
           ebind (c_assert (cleaner_thread_rate_pair (pairs ct1 best_pair) > 0)) (\<lambda>_.
             let chkpt_pending = checkpoint_pending (pairs ct1 best_pair);
                 ct2 = set_pair best_pair (\<lambda>y. y\<lparr>checkpoint_pending := False\<rparr>) ct1
             in ebind (if chkpt_pending
                       then write_locked_pair_for_checkpoint cb best_pair True ct2
                       else Inr ct2) (\<lambda>ct3.
                ebind (if cleaner_thread_rate_pair (pairs ct3 best_pair) > 0 then
                         let x = pairs ct3 best_pair;
                             r = cleaner_result cb (cleaner_callback x) (value_data x) (key x)
                                   (fullhash x) (write_extraargs x);
                             ct4 = emit (EV_CLEANER (cleaner_callback x) (value_data x) (key x)
                                     (fullhash x) (write_extraargs x)) ct3
                         in ebind (value_unlock best_pair ct4) (\<lambda>ct5.
                            ebind (c_assert (r = 0)) (\<lambda>_. Inr ct5))
                       else value_unlock best_pair ct3)
                  (cf_remove_background_job cf)))))"

definition cleaner_probe :: "callbacks \<Rightarrow> cachetable \<Rightarrow> (error + probe_outcome \<times> cachetable) option" where
  "cleaner_probe cb ct =
     (let ct0 = ct\<lparr>cleaner_executions := cleaner_executions ct + 1\<rparr>
      in case m_cleaner_head (list ct0) of
           None \<Rightarrow> Some (Inr (PROBE_BREAK, ct0))
         | Some first_pair \<Rightarrow>
             (case cleaner_select ct0 first_pair first_pair None 0 0 of
                None \<Rightarrow> None
              | Some (head, best) \<Rightarrow>
                  let ct1 = ct0\<lparr>list := (list ct0)\<lparr>m_cleaner_head := Some head\<rparr>\<rparr>
                  in (case best of
                        None \<Rightarrow> Some (Inr (PROBE_BREAK, ct1))
                      | Some best_pair \<Rightarrow>
                          Some (ebind (cleaner_clean cb best_pair ct1) (\<lambda>ct2.
                                  Inr (PROBE_CONTINUE, ct2))))))"

text \<open>
  \<^verbatim>\<open>run_cleaner\<close>: the \<^verbatim>\<open>for\<close> loop over the iterations, counted down. The result
  is \<open>None\<close> when a selection does not end.
\<close>

fun cleaner_iterate :: "callbacks \<Rightarrow> nat \<Rightarrow> cachetable \<Rightarrow> (error + cachetable) option" where
  "cleaner_iterate cb 0 ct = Some (Inr ct)"
| "cleaner_iterate cb (Suc n) ct =
     (case cleaner_probe cb ct of
        None \<Rightarrow> None
      | Some (Inl e) \<Rightarrow> Some (Inl e)
      | Some (Inr (PROBE_BREAK, ct1)) \<Rightarrow> Some (Inr ct1)
      | Some (Inr (PROBE_CONTINUE, ct1)) \<Rightarrow> cleaner_iterate cb n ct1)"

definition run_cleaner :: "callbacks \<Rightarrow> cachetable \<Rightarrow> (error + cachetable) option" where
  "run_cleaner cb ct = cleaner_iterate cb (m_cleaner_iterations (cl ct)) ct"


subsection \<open>Flushing a cachefile\<close>

fun flush_collect :: "PAIR list \<Rightarrow> cachetable \<Rightarrow> error + job list" where
  "flush_collect [] ct = Inr []"
| "flush_collect (p # ps) ct =
     ebind (c_assert (nb_mutex_users (value_nb_mutex (pairs ct p)) = 0)) (\<lambda>_.
     ebind (c_assert (nb_mutex_users (disk_nb_mutex (pairs ct p)) = 0)) (\<lambda>_.
     ebind (c_assert (cloned_value_data (pairs ct p) = 0)) (\<lambda>_.
     ebind (flush_collect ps ct) (\<lambda>js.
       Inr (if dirty (pairs ct p) = CACHETABLE_DIRTY
            then JOB_FLUSH_PAIR_FOR_CLOSE p # js else js)))))"

fun flush_remove :: "PAIR list \<Rightarrow> cachetable \<Rightarrow> error + cachetable" where
  "flush_remove [] ct = Inr ct"
| "flush_remove (p # ps) ct =
     ebind (c_assert (nb_mutex_users (value_nb_mutex (pairs ct p)) = 0)) (\<lambda>_.
     ebind (c_assert (nb_mutex_users (disk_nb_mutex (pairs ct p)) = 0)) (\<lambda>_.
     ebind (c_assert (cloned_value_data (pairs ct p) = 0)) (\<lambda>_.
     ebind (c_assert (dirty (pairs ct p) = CACHETABLE_CLEAN)) (\<lambda>_.
     ebind (cachetable_maybe_remove_and_free_pair p ct) (flush_remove ps)))))"

text \<open>
  \<^verbatim>\<open>cachetable_flush_cachefile\<close>, for cachefile \<open>cf\<close> or, when \<open>cf\<close> is
  \<^verbatim>\<open>NULL\<close>, for all of them. The function queues a writer job for each dirty pair
  and waits for these jobs; the step runs them where the function waits.
\<close>

definition cachetable_flush_cachefile :: "callbacks \<Rightarrow> cachetable \<Rightarrow> CACHEFILE \<Rightarrow> error + cachetable" where
  "cachetable_flush_cachefile cb ct cf =
     (let lst = filter (\<lambda>p. cf = 0 \<or> cachefile (pairs ct p) = cf) (concat (m_table (list ct)))
      in ebind (flush_collect lst ct) (\<lambda>js.
         ebind (run_jobs cb js ct) (\<lambda>ct1.
         ebind (flush_remove lst ct1) (\<lambda>ct2.
         ebind (c_assert (list_all (\<lambda>p. cachefile (pairs ct2 p) \<noteq> cf)
                            (concat (m_table (list ct2))))) (\<lambda>_.
           if cf \<noteq> 0 then
             ebind (bjm_reset (cf_bjm (files ct2 cf))) (\<lambda>b.
               Inr (set_file cf (\<lambda>f. f\<lparr>cf_bjm := b\<rparr>) ct2))
           else Inr ct2)))))"

definition toku_cachefile_flush :: "callbacks \<Rightarrow> cachetable \<Rightarrow> CACHEFILE \<Rightarrow> error + int \<times> cachetable" where
  "toku_cachefile_flush cb ct cf =
     ebind (bjm_wait_for_jobs_to_finish (cf_bjm (files ct cf))) (\<lambda>b.
     ebind (cachetable_flush_cachefile cb (set_file cf (\<lambda>f. f\<lparr>cf_bjm := b\<rparr>) ct) cf) (\<lambda>ct1.
       Inr (0, ct1)))"

subsection \<open>The checkpointer\<close>

text \<open>Calling one of the per-file callbacks (when it is set) on every file of a list.\<close>

fun cf_callbacks ::
  "callbacks \<Rightarrow> (cachefile_rec \<Rightarrow> funp) \<Rightarrow> CACHEFILE list \<Rightarrow> cachetable \<Rightarrow> error + cachetable" where
  "cf_callbacks cb sel [] ct = Inr ct"
| "cf_callbacks cb sel (cf # cfs) ct =
     (let f = sel (files ct cf)
      in ebind (if f \<noteq> 0 then
                  ebind (c_assert (cf_result cb f cf = 0)) (\<lambda>_. Inr (emit (EV_CF f cf) ct))
                else Inr ct)
           (cf_callbacks cb sel cfs))"

fun begin_checkpoint_files :: "callbacks \<Rightarrow> CACHEFILE list \<Rightarrow> cachetable \<Rightarrow> error + cachetable" where
  "begin_checkpoint_files cb [] ct = Inr ct"
| "begin_checkpoint_files cb (cf # cfs) ct =
     (let f = note_pin_by_checkpoint (files ct cf)
      in ebind (if f \<noteq> 0 then
                  ebind (c_assert (cf_result cb f cf = 0)) (\<lambda>_. Inr (emit (EV_CF f cf) ct))
                else Inr ct) (\<lambda>ct1.
           begin_checkpoint_files cb cfs
             ((set_file cf (\<lambda>x. x\<lparr>for_checkpoint := True\<rparr>) ct1)
                \<lparr>cp := (cp ct1)\<lparr>m_checkpoint_num_files := m_checkpoint_num_files (cp ct1) + 1\<rparr>\<rparr>)))"

text \<open>
  \<^verbatim>\<open>log_begin_checkpoint\<close>. The records of the open transactions come from the
  transaction manager, which is outside the cachetable; the step logs none.
\<close>

definition log_begin_checkpoint :: "callbacks \<Rightarrow> cachetable \<Rightarrow> error + cachetable" where
  "log_begin_checkpoint cb ct =
     ebind (cf_callbacks cb log_fassociate_during_checkpoint (cf_list ct)
              (emit EV_LOG_BEGIN_CHECKPOINT ct))
       (\<lambda>ct1. cf_callbacks cb log_suppress_rollback_during_checkpoint (cf_list ct1) ct1)"

fun turn_on_pending_bits_loop :: "PAIR list \<Rightarrow> cachetable \<Rightarrow> error + cachetable" where
  "turn_on_pending_bits_loop [] ct = Inr ct"
| "turn_on_pending_bits_loop (p # ps) ct =
     ebind (c_assert (\<not> checkpoint_pending (pairs ct p))) (\<lambda>_.
       if \<not> for_checkpoint (files ct (cachefile (pairs ct p))) then turn_on_pending_bits_loop ps ct
       else turn_on_pending_bits_loop ps
              ((set_pair p (\<lambda>y. y\<lparr>checkpoint_pending := True\<rparr>) ct)
                 \<lparr>list := (list ct)\<lparr>m_pending := p # m_pending (list ct)\<rparr>\<rparr>))"

definition turn_on_pending_bits :: "cachetable \<Rightarrow> error + cachetable" where
  "turn_on_pending_bits ct = turn_on_pending_bits_loop (concat (m_table (list ct))) ct"

fun update_cachefiles_loop :: "callbacks \<Rightarrow> CACHEFILE list \<Rightarrow> cachetable \<Rightarrow> error + cachetable" where
  "update_cachefiles_loop cb [] ct = Inr ct"
| "update_cachefiles_loop cb (cf # cfs) ct =
     (let f = begin_checkpoint_userdata (files ct cf)
      in ebind (if for_checkpoint (files ct cf) \<and> f \<noteq> 0 then
                  ebind (c_assert (cf_result cb f cf = 0)) (\<lambda>_. Inr (emit (EV_CF f cf) ct))
                else Inr ct)
           (update_cachefiles_loop cb cfs))"

definition update_cachefiles :: "callbacks \<Rightarrow> cachetable \<Rightarrow> error + cachetable" where
  "update_cachefiles cb ct = update_cachefiles_loop cb (cf_list ct) ct"

definition begin_checkpoint :: "callbacks \<Rightarrow> cachetable \<Rightarrow> error + int \<times> cachetable" where
  "begin_checkpoint cb ct =
     (let ct0 = ct\<lparr>cp := (cp ct)\<lparr>m_checkpoint_num_files := 0, m_checkpoint_num_txns := 0\<rparr>\<rparr>
      in ebind (begin_checkpoint_files cb (cf_list ct0) ct0) (\<lambda>ct1.
         ebind (if m_logger (cp ct1) \<noteq> 0 then log_begin_checkpoint cb ct1 else Inr ct1) (\<lambda>ct2.
         ebind (bjm_reset (m_checkpoint_clones_bjm (cp ct2))) (\<lambda>b.
         ebind (turn_on_pending_bits (ct2\<lparr>cp := (cp ct2)\<lparr>m_checkpoint_clones_bjm := b\<rparr>\<rparr>)) (\<lambda>ct3.
         ebind (update_cachefiles cb ct3) (\<lambda>ct4. Inr (0, ct4)))))))"


subsection \<open>Reasoning about steps\<close>

text \<open>
  \<open>post m Q\<close>: if the step \<open>m\<close> completes, its result satisfies \<open>Q\<close>. The
  structure of a state, \<open>struct_of\<close>, is what the locking and writing steps leave
  alone: the pair list, the allocator, the list of cachefiles, the identity, value
  handle, clock count and callbacks of every pair, and the descriptor, number and
  checkpoint flag of every cachefile.
\<close>

lemma ebind_simps [simp]:
  "ebind (Inl e) f = Inl e" "ebind (Inr x) f = f x"
  by (simp_all add: ebind_def)

definition pair_id :: "ctpair \<Rightarrow> (CACHEFILE \<times> CACHEKEY \<times> 32 word) \<times> (voidp \<times> nat) \<times> (funp \<times> funp \<times> funp \<times> funp \<times> funp \<times> voidp)" where
  "pair_id x = ((cachefile x, key x, fullhash x), (value_data x, count x),
     (flush_callback x, pe_callback x, pe_est_callback x, cleaner_callback x, clone_callback x,
      write_extraargs x))"

definition file_id :: "cachefile_rec \<Rightarrow> int \<times> 32 word \<times> bool" where
  "file_id f = (fd f, filenum f, for_checkpoint f)"

definition struct_of ::
  "cachetable \<Rightarrow> (pair_list \<times> PAIR \<times> CACHEFILE list \<times> cleaner) \<times> (PAIR \<Rightarrow> _) \<times> (CACHEFILE \<Rightarrow> _)" where
  "struct_of ct =
     ((list ct, next_pair ct, cf_list ct, cl ct), (\<lambda>q. pair_id (pairs ct q)),
      (\<lambda>c. file_id (files ct c)))"

lemma ebindE:
  assumes "ebind m f = Inr y"
  obtains x where "m = Inr x" "f x = Inr y"
  using assms by (cases m) simp_all

lemma c_assert_Inr [simp]: "c_assert b = Inr u \<longleftrightarrow> b"
  by (simp add: c_assert_def)

lemma c_assert_Inl [simp]: "c_assert b = Inl e \<longleftrightarrow> \<not> b \<and> e = ASSERT_FAILED"
  by (auto simp: c_assert_def)

lemma set_pair_simps [simp]:
  "pairs (set_pair p f ct) = (pairs ct)(p := f (pairs ct p))"
  "list (set_pair p f ct) = list ct"
  "next_pair (set_pair p f ct) = next_pair ct"
  "files (set_pair p f ct) = files ct"
  "cf_list (set_pair p f ct) = cf_list ct"
  "ev (set_pair p f ct) = ev ct"
  "cp (set_pair p f ct) = cp ct"
  "cl (set_pair p f ct) = cl ct"
  "client_kibbutz (set_pair p f ct) = client_kibbutz ct"
  "ct_kibbutz (set_pair p f ct) = ct_kibbutz ct"
  "checkpointing_kibbutz (set_pair p f ct) = checkpointing_kibbutz ct"
  "cachetable_miss (set_pair p f ct) = cachetable_miss ct"
  "cachetable_puts (set_pair p f ct) = cachetable_puts ct"
  "cachetable_prefetches (set_pair p f ct) = cachetable_prefetches ct"
  "cachetable_evictions (set_pair p f ct) = cachetable_evictions ct"
  "cleaner_executions (set_pair p f ct) = cleaner_executions ct"
  "trace (set_pair p f ct) = trace ct"
  by (simp_all add: set_pair_def)

lemma emit_simps [simp]:
  "pairs (emit e ct) = pairs ct"
  "list (emit e ct) = list ct"
  "next_pair (emit e ct) = next_pair ct"
  "files (emit e ct) = files ct"
  "cf_list (emit e ct) = cf_list ct"
  "ev (emit e ct) = ev ct"
  "cp (emit e ct) = cp ct"
  "cl (emit e ct) = cl ct"
  "client_kibbutz (emit e ct) = client_kibbutz ct"
  "ct_kibbutz (emit e ct) = ct_kibbutz ct"
  "checkpointing_kibbutz (emit e ct) = checkpointing_kibbutz ct"
  "cachetable_miss (emit e ct) = cachetable_miss ct"
  "cachetable_puts (emit e ct) = cachetable_puts ct"
  "cachetable_prefetches (emit e ct) = cachetable_prefetches ct"
  "cachetable_evictions (emit e ct) = cachetable_evictions ct"
  "cleaner_executions (emit e ct) = cleaner_executions ct"
  "trace (emit e ct) = trace ct @ [e]"
  by (simp_all add: emit_def)

lemma set_file_simps [simp]:
  "pairs (set_file c f ct) = pairs ct"
  "list (set_file c f ct) = list ct"
  "next_pair (set_file c f ct) = next_pair ct"
  "files (set_file c f ct) = (files ct)(c := f (files ct c))"
  "cf_list (set_file c f ct) = cf_list ct"
  "ev (set_file c f ct) = ev ct"
  "cp (set_file c f ct) = cp ct"
  "cl (set_file c f ct) = cl ct"
  "client_kibbutz (set_file c f ct) = client_kibbutz ct"
  "ct_kibbutz (set_file c f ct) = ct_kibbutz ct"
  "checkpointing_kibbutz (set_file c f ct) = checkpointing_kibbutz ct"
  "cachetable_miss (set_file c f ct) = cachetable_miss ct"
  "cachetable_puts (set_file c f ct) = cachetable_puts ct"
  "cachetable_prefetches (set_file c f ct) = cachetable_prefetches ct"
  "cachetable_evictions (set_file c f ct) = cachetable_evictions ct"
  "cleaner_executions (set_file c f ct) = cleaner_executions ct"
  "trace (set_file c f ct) = trace ct"
  by (simp_all add: set_file_def)

lemma nb_mutex_users_eq [simp]: "nb_mutex_users m = writers m"
  by (simp add: nb_mutex_users_def nb_mutex_writers_def nb_mutex_blocked_writers_def)

lemma nb_mutex_writers_eq [simp]: "nb_mutex_writers m = writers m"
  by (simp add: nb_mutex_writers_def)

lemma nb_mutex_blocked_writers_eq [simp]: "nb_mutex_blocked_writers m = 0"
  by (simp add: nb_mutex_blocked_writers_def)

lemma value_lock_Inr:
  "value_lock p ct = Inr ct' \<longleftrightarrow>
     writers (value_nb_mutex (pairs ct p)) = 0 \<and>
     ct' = set_pair p (\<lambda>x. x\<lparr>value_nb_mutex := (value_nb_mutex (pairs ct p))\<lparr>writers := 1\<rparr>\<rparr>) ct"
  by (auto simp: value_lock_def nb_mutex_lock_def)

lemma value_unlock_Inr:
  "value_unlock p ct = Inr ct' \<longleftrightarrow>
     writers (value_nb_mutex (pairs ct p)) \<noteq> 0 \<and>
     ct' = set_pair p (\<lambda>x. x\<lparr>value_nb_mutex := (value_nb_mutex (pairs ct p))\<lparr>writers :=
             writers (value_nb_mutex (pairs ct p)) - 1\<rparr>\<rparr>) ct"
  by (auto simp: value_unlock_def nb_mutex_unlock_def)

lemma disk_lock_Inr:
  "disk_lock p ct = Inr ct' \<longleftrightarrow>
     writers (disk_nb_mutex (pairs ct p)) = 0 \<and>
     ct' = set_pair p (\<lambda>x. x\<lparr>disk_nb_mutex := (disk_nb_mutex (pairs ct p))\<lparr>writers := 1\<rparr>\<rparr>) ct"
  by (auto simp: disk_lock_def nb_mutex_lock_def)

lemma disk_unlock_Inr:
  "disk_unlock p ct = Inr ct' \<longleftrightarrow>
     writers (disk_nb_mutex (pairs ct p)) \<noteq> 0 \<and>
     ct' = set_pair p (\<lambda>x. x\<lparr>disk_nb_mutex := (disk_nb_mutex (pairs ct p))\<lparr>writers :=
             writers (disk_nb_mutex (pairs ct p)) - 1\<rparr>\<rparr>) ct"
  by (auto simp: disk_unlock_def nb_mutex_unlock_def)

lemma with_ev_Inr:
  "with_ev f ct = Inr ct' \<longleftrightarrow> (\<exists>e. f (ev ct) = Inr e \<and> ct' = ct\<lparr>ev := e\<rparr>)"
  unfolding with_ev_def by (cases "f (ev ct)") auto


lemma struct_of_set_pair [simp]:
  "pair_id (f (pairs ct p)) = pair_id (pairs ct p) \<Longrightarrow> struct_of (set_pair p f ct) = struct_of ct"
  by (auto simp: struct_of_def)

lemma struct_of_set_file [simp]:
  "file_id (f (files ct c)) = file_id (files ct c) \<Longrightarrow> struct_of (set_file c f ct) = struct_of ct"
  by (auto simp: struct_of_def)

lemma struct_of_updates [simp]:
  "struct_of (emit e ct) = struct_of ct"
  "struct_of (ct\<lparr>ev := e1\<rparr>) = struct_of ct"
  "struct_of (ct\<lparr>cp := e2\<rparr>) = struct_of ct"
  "struct_of (ct\<lparr>client_kibbutz := k1\<rparr>) = struct_of ct"
  "struct_of (ct\<lparr>ct_kibbutz := k2\<rparr>) = struct_of ct"
  "struct_of (ct\<lparr>checkpointing_kibbutz := k3\<rparr>) = struct_of ct"
  "struct_of (ct\<lparr>cachetable_miss := n1\<rparr>) = struct_of ct"
  "struct_of (ct\<lparr>cachetable_puts := n2\<rparr>) = struct_of ct"
  "struct_of (ct\<lparr>cachetable_prefetches := n3\<rparr>) = struct_of ct"
  "struct_of (ct\<lparr>cachetable_evictions := n4\<rparr>) = struct_of ct"
  "struct_of (ct\<lparr>cleaner_executions := n5\<rparr>) = struct_of ct"
  "struct_of (ct\<lparr>trace := t\<rparr>) = struct_of ct"
  by (simp_all add: struct_of_def)

lemma pair_id_updates [simp]:
  "pair_id (x\<lparr>cloned_value_data := a1\<rparr>) = pair_id x"
  "pair_id (x\<lparr>cloned_value_size := a2\<rparr>) = pair_id x"
  "pair_id (x\<lparr>disk_data := a3\<rparr>) = pair_id x"
  "pair_id (x\<lparr>attr := a4\<rparr>) = pair_id x"
  "pair_id (x\<lparr>dirty := a5\<rparr>) = pair_id x"
  "pair_id (x\<lparr>checkpoint_pending := a6\<rparr>) = pair_id x"
  "pair_id (x\<lparr>value_nb_mutex := a7\<rparr>) = pair_id x"
  "pair_id (x\<lparr>disk_nb_mutex := a8\<rparr>) = pair_id x"
  "pair_id (x\<lparr>size_evicting_estimate := a9\<rparr>) = pair_id x"
  by (simp_all add: pair_id_def)

lemma file_id_updates [simp]:
  "file_id (f\<lparr>cf_bjm := b\<rparr>) = file_id f"
  by (simp_all add: file_id_def)

lemma struct_ofD:
  assumes "struct_of ct' = struct_of ct"
  shows "list ct' = list ct" "next_pair ct' = next_pair ct" "cf_list ct' = cf_list ct"
    "cl ct' = cl ct" "pair_id (pairs ct' q) = pair_id (pairs ct q)"
    "file_id (files ct' c) = file_id (files ct c)"
  using assms by (auto simp: struct_of_def dest: fun_cong)

lemma pair_idD:
  assumes "pair_id x = pair_id y"
  shows "cachefile x = cachefile y" "key x = key y" "fullhash x = fullhash y"
    "value_data x = value_data y" "count x = count y" "flush_callback x = flush_callback y"
    "pe_callback x = pe_callback y" "pe_est_callback x = pe_est_callback y"
    "cleaner_callback x = cleaner_callback y" "clone_callback x = clone_callback y"
    "write_extraargs x = write_extraargs y"
  using assms by (simp_all add: pair_id_def)

lemma file_idD:
  assumes "file_id x = file_id y"
  shows "fd x = fd y" "filenum x = filenum y" "for_checkpoint x = for_checkpoint y"
  using assms by (simp_all add: file_id_def)


definition post :: "error + 'a \<Rightarrow> ('a \<Rightarrow> bool) \<Rightarrow> bool" where
  "post m Q \<longleftrightarrow> (\<forall>y. m = Inr y \<longrightarrow> Q y)"

named_theorems wp

lemma postD: "post m Q \<Longrightarrow> m = Inr y \<Longrightarrow> Q y"
  by (simp add: post_def)

lemma postI: "(\<And>y. m = Inr y \<Longrightarrow> Q y) \<Longrightarrow> post m Q"
  by (simp add: post_def)

lemma post_conseq: "post m R \<Longrightarrow> (\<And>y. R y \<Longrightarrow> Q y) \<Longrightarrow> post m Q"
  by (simp add: post_def)

lemma post_Inr [wp]: "Q x \<Longrightarrow> post (Inr x) Q"
  by (simp add: post_def)

lemma post_Inl [wp]: "post (Inl e) Q"
  by (simp add: post_def)

lemma post_ebind [wp]: "post m (\<lambda>x. post (f x) Q) \<Longrightarrow> post (ebind m f) Q"
  by (cases m) (simp_all add: post_def)

lemma post_if [wp]: "(c \<Longrightarrow> post a Q) \<Longrightarrow> (\<not> c \<Longrightarrow> post b Q) \<Longrightarrow> post (if c then a else b) Q"
  by simp

lemma post_case_prod [wp]:
  "(\<And>a b. p = (a, b) \<Longrightarrow> post (f a b) Q) \<Longrightarrow> post (case p of (a, b) \<Rightarrow> f a b) Q"
  by (cases p) simp

lemma post_assert [wp]: "(b \<Longrightarrow> Q ()) \<Longrightarrow> post (c_assert b) Q"
  by (simp add: post_def)

lemma ebind_eq_Inr: "ebind m f = Inr y \<longleftrightarrow> (\<exists>x. m = Inr x \<and> f x = Inr y)"
  by (cases m) simp_all

lemma value_lock_post:
  "post (value_lock p ct) (\<lambda>ct'. writers (value_nb_mutex (pairs ct p)) = 0 \<and>
     ct' = set_pair p (\<lambda>x. x\<lparr>value_nb_mutex := (value_nb_mutex (pairs ct p))\<lparr>writers := 1\<rparr>\<rparr>) ct)"
  by (simp add: post_def value_lock_Inr)

lemma value_unlock_post:
  "post (value_unlock p ct) (\<lambda>ct'. writers (value_nb_mutex (pairs ct p)) \<noteq> 0 \<and>
     ct' = set_pair p (\<lambda>x. x\<lparr>value_nb_mutex := (value_nb_mutex (pairs ct p))\<lparr>writers :=
             writers (value_nb_mutex (pairs ct p)) - 1\<rparr>\<rparr>) ct)"
  by (simp add: post_def value_unlock_Inr)

lemma disk_lock_post:
  "post (disk_lock p ct) (\<lambda>ct'. writers (disk_nb_mutex (pairs ct p)) = 0 \<and>
     ct' = set_pair p (\<lambda>x. x\<lparr>disk_nb_mutex := (disk_nb_mutex (pairs ct p))\<lparr>writers := 1\<rparr>\<rparr>) ct)"
  by (simp add: post_def disk_lock_Inr)

lemma disk_unlock_post:
  "post (disk_unlock p ct) (\<lambda>ct'. writers (disk_nb_mutex (pairs ct p)) \<noteq> 0 \<and>
     ct' = set_pair p (\<lambda>x. x\<lparr>disk_nb_mutex := (disk_nb_mutex (pairs ct p))\<lparr>writers :=
             writers (disk_nb_mutex (pairs ct p)) - 1\<rparr>\<rparr>) ct)"
  by (simp add: post_def disk_unlock_Inr)

lemma with_ev_post:
  "post (with_ev f ct) (\<lambda>ct'. \<exists>e. f (ev ct) = Inr e \<and> ct' = ct\<lparr>ev := e\<rparr>)"
  by (simp add: post_def with_ev_Inr)

lemmas prim_wp =
  value_lock_post [THEN post_conseq] value_unlock_post [THEN post_conseq]
  disk_lock_post [THEN post_conseq] disk_unlock_post [THEN post_conseq]
  with_ev_post [THEN post_conseq]

lemma only_write_struct:
  "post (cachetable_only_write_locked_data cb p fc ic ct) (\<lambda>(a, ct'). struct_of ct' = struct_of ct)"
  unfolding cachetable_only_write_locked_data_def Let_def
  by (intro wp) auto

lemma write_locked_pair_struct:
  "post (cachetable_write_locked_pair cb p fc ct) (\<lambda>ct'. struct_of ct' = struct_of ct)"
  unfolding cachetable_write_locked_pair_def Let_def
  by (intro wp prim_wp only_write_struct [THEN post_conseq]) auto

lemma clone_pair_struct:
  "post (clone_pair cb p ct) (\<lambda>ct'. struct_of ct' = struct_of ct)"
  unfolding clone_pair_def Let_def
  by (intro wp prim_wp) auto

lemma cp_add_background_job_struct:
  "post (cp_add_background_job ct) (\<lambda>ct'. struct_of ct' = struct_of ct)"
  unfolding cp_add_background_job_def Let_def
  by (intro wp) auto

lemma cp_remove_background_job_struct:
  "post (cp_remove_background_job ct) (\<lambda>ct'. struct_of ct' = struct_of ct)"
  unfolding cp_remove_background_job_def
  by (auto simp: post_def ebind_eq_Inr)

lemmas struct_wp =
  only_write_struct [THEN post_conseq] write_locked_pair_struct [THEN post_conseq]
  clone_pair_struct [THEN post_conseq] cp_add_background_job_struct [THEN post_conseq]
  cp_remove_background_job_struct [THEN post_conseq]

lemma write_locked_pair_for_checkpoint_struct:
  "post (write_locked_pair_for_checkpoint cb p pend ct) (\<lambda>ct'. struct_of ct' = struct_of ct)"
  unfolding write_locked_pair_for_checkpoint_def checkpoint_cloned_pair_on_writer_thread_def
  by (intro wp prim_wp struct_wp) auto

lemma checkpoint_cloned_pair_struct:
  "post (checkpoint_cloned_pair cb p ct) (\<lambda>ct'. struct_of ct' = struct_of ct)"
  unfolding checkpoint_cloned_pair_def
  by (intro wp prim_wp struct_wp) auto

lemma write_pair_for_checkpoint_thread_struct:
  "post (write_pair_for_checkpoint_thread cb p ct) (\<lambda>ct'. struct_of ct' = struct_of ct)"
  unfolding write_pair_for_checkpoint_thread_def
  by (intro wp prim_wp struct_wp) auto


subsection \<open>Ending a checkpoint\<close>

text \<open>
  The \<^verbatim>\<open>while\<close> loop of \<^verbatim>\<open>checkpoint_pending_pairs\<close>: it takes the head off the
  pending list and writes it, until the list is empty.
\<close>

function checkpoint_pending_loop :: "callbacks \<Rightarrow> cachetable \<Rightarrow> error + cachetable" where
  "checkpoint_pending_loop cb ct =
     (case m_pending (list ct) of
        [] \<Rightarrow> Inr ct
      | p # rest \<Rightarrow>
          (case write_pair_for_checkpoint_thread cb p
                  (pending_pairs_remove p (ct\<lparr>list := (list ct)\<lparr>m_pending := rest\<rparr>\<rparr>)) of
             Inl e \<Rightarrow> Inl e
           | Inr ct1 \<Rightarrow> checkpoint_pending_loop cb ct1))"
  by pat_completeness auto

lemma checkpoint_pending_loop_decreases:
  assumes "m_pending (list ct) = p # rest"
    and "write_pair_for_checkpoint_thread cb p
           (pending_pairs_remove p (ct\<lparr>list := (list ct)\<lparr>m_pending := rest\<rparr>\<rparr>)) = Inr ct1"
  shows "length (m_pending (list ct1)) < length (m_pending (list ct))"
proof -
  have "struct_of ct1 =
        struct_of (pending_pairs_remove p (ct\<lparr>list := (list ct)\<lparr>m_pending := rest\<rparr>\<rparr>))"
    using postD [OF write_pair_for_checkpoint_thread_struct assms(2)] .
  then have "m_pending (list ct1) = remove1 p rest"
    by (simp add: struct_of_def pending_pairs_remove_def)
  moreover have "length (remove1 p rest) \<le> length rest"
    by (simp add: length_remove1)
  ultimately show ?thesis using assms(1) by simp
qed

termination checkpoint_pending_loop
proof (relation "measure (\<lambda>(cb, ct). length (m_pending (list ct)))")
  show "wf (measure (\<lambda>(cb, ct). length (m_pending (list ct))))" by simp
next
  fix cb ct p rest ct1
  assume "m_pending (list ct) = p # rest"
    and "write_pair_for_checkpoint_thread cb p
           (pending_pairs_remove p (ct\<lparr>list := (list ct)\<lparr>m_pending := rest\<rparr>\<rparr>)) = Inr ct1"
  then have "length (m_pending (list ct1)) < length (m_pending (list ct))"
    by (rule checkpoint_pending_loop_decreases)
  then show "((cb, ct1), (cb, ct)) \<in> measure (\<lambda>(cb, ct). length (m_pending (list ct)))"
    by simp
qed

text \<open>
  \<^verbatim>\<open>checkpoint_pending_pairs\<close>. After the loop the function waits for the clone
  writers that client threads queued on the checkpointing kibbutz; the wait returns
  once the writer threads ran all of them, so the step runs them where the function
  waits.
\<close>

definition checkpoint_pending_pairs :: "callbacks \<Rightarrow> cachetable \<Rightarrow> error + cachetable" where
  "checkpoint_pending_pairs cb ct =
     ebind (checkpoint_pending_loop cb ct) (\<lambda>ct1.
     ebind (c_assert (m_pending_head (list ct1) = None)) (\<lambda>_.
     ebind (run_jobs cb (checkpointing_kibbutz ct1) (ct1\<lparr>checkpointing_kibbutz := []\<rparr>)) (\<lambda>ct2.
     ebind (bjm_wait_for_jobs_to_finish (m_checkpoint_clones_bjm (cp ct2))) (\<lambda>b.
       Inr (ct2\<lparr>cp := (cp ct2)\<lparr>m_checkpoint_clones_bjm := b\<rparr>\<rparr>)))))"

fun checked_cf_callbacks ::
  "callbacks \<Rightarrow> (cachefile_rec \<Rightarrow> funp) \<Rightarrow> CACHEFILE list \<Rightarrow> cachetable \<Rightarrow> error + cachetable" where
  "checked_cf_callbacks cb sel [] ct = Inr ct"
| "checked_cf_callbacks cb sel (cf # cfs) ct =
     ebind (c_assert (for_checkpoint (files ct cf))) (\<lambda>_.
       let f = sel (files ct cf)
       in ebind (if f \<noteq> 0 then
                   ebind (c_assert (cf_result cb f cf = 0)) (\<lambda>_. Inr (emit (EV_CF f cf) ct))
                 else Inr ct)
            (checked_cf_callbacks cb sel cfs))"

definition log_end_checkpoint :: "cachetable \<Rightarrow> cachetable" where
  "log_end_checkpoint ct =
     (if m_logger (cp ct) \<noteq> 0
      then emit (EV_LOG_END_CHECKPOINT (m_checkpoint_num_files (cp ct))
                   (m_checkpoint_num_txns (cp ct))) ct
      else ct)"

fun remove_cachefiles :: "callbacks \<Rightarrow> CACHEFILE list \<Rightarrow> cachetable \<Rightarrow> error + int \<times> cachetable" where
  "remove_cachefiles cb [] ct = Inr (0, ct)"
| "remove_cachefiles cb (cf # cfs) ct =
     ebind (c_assert (for_checkpoint (files ct cf))) (\<lambda>_.
       let ct1 = set_file cf (\<lambda>x. x\<lparr>for_checkpoint := False\<rparr>) ct;
           f = note_unpin_by_checkpoint (files ct1 cf)
       in if f \<noteq> 0 then
            (if cf_result cb f cf \<noteq> 0 then Inr (cf_result cb f cf, emit (EV_CF f cf) ct1)
             else remove_cachefiles cb cfs (emit (EV_CF f cf) ct1))
          else remove_cachefiles cb cfs ct1)"

definition end_checkpoint :: "callbacks \<Rightarrow> funp \<Rightarrow> voidp \<Rightarrow> cachetable \<Rightarrow> error + int \<times> cachetable" where
  "end_checkpoint cb testcallback_f testextra ct =
     (let checkpoint_cfs = filter (\<lambda>cf. for_checkpoint (files ct cf)) (cf_list ct)
      in ebind (c_assert (length checkpoint_cfs = m_checkpoint_num_files (cp ct))) (\<lambda>_.
         ebind (checkpoint_pending_pairs cb ct) (\<lambda>ct1.
         ebind (checked_cf_callbacks cb checkpoint_userdata checkpoint_cfs ct1) (\<lambda>ct2.
           let ct3 = (if testcallback_f \<noteq> 0
                      then emit (EV_TESTCALLBACK testcallback_f testextra) ct2 else ct2);
               ct4 = log_end_checkpoint ct3
           in ebind (checked_cf_callbacks cb end_checkpoint_userdata checkpoint_cfs ct4)
                (remove_cachefiles cb checkpoint_cfs)))))"

text \<open>The size limit \<^verbatim>\<open>toku_create_cachetable\<close> hands to the evictor.\<close>

definition effective_size_limit :: "int \<Rightarrow> int" where
  "effective_size_limit size_limit = (if size_limit = 0 then 134217728 else size_limit)"

subsection \<open>The outcome of a try-pin\<close>

text \<open>
  A try-pin succeeds when the pair is there, nobody uses its value lock and no
  checkpoint is pending on it; \<open>need_dirty\<close> adds that the pair is dirty.
  \<open>pinned p ct\<close> is the state in which the caller holds the value lock of \<open>p\<close>.
\<close>

definition try_pin_succeeds :: "bool \<Rightarrow> cachetable \<Rightarrow> CACHEFILE \<Rightarrow> CACHEKEY \<Rightarrow> 32 word \<Rightarrow> bool" where
  "try_pin_succeeds need_dirty ct cf k h =
     (case find_pair ct cf k h of
        None \<Rightarrow> False
      | Some p \<Rightarrow>
          nb_mutex_users (value_nb_mutex (pairs ct p)) = 0 \<and>
          \<not> checkpoint_pending (pairs ct p) \<and>
          (if need_dirty then dirty (pairs ct p) = CACHETABLE_DIRTY else True))"

definition pinned :: "PAIR \<Rightarrow> cachetable \<Rightarrow> cachetable" where
  "pinned p ct = set_pair p (\<lambda>x. x\<lparr>value_nb_mutex := (value_nb_mutex x)\<lparr>writers := 1\<rparr>\<rparr>) ct"

definition try_pin_result :: "bool \<Rightarrow> cachetable \<Rightarrow> CACHEFILE \<Rightarrow> CACHEKEY \<Rightarrow> 32 word \<Rightarrow>
    error + (int \<times> voidp option) \<times> cachetable" where
  "try_pin_result need_dirty ct cf k h =
     (if try_pin_succeeds need_dirty ct cf k h
      then Inr ((0, Some (value_data (pairs ct (the (find_pair ct cf k h))))),
                pinned (the (find_pair ct cf k h)) ct)
      else Inr ((- 1, None), ct))"

subsection \<open>Concrete states\<close>

text \<open>
  The cachefile that \<^verbatim>\<open>toku_cachetable_openfd_with_filenum\<close> makes for a file that
  is not open yet: zeroed, with its descriptor and number, a fresh job manager, and
  linked at the head of the list of cachefiles.
\<close>

definition new_cachefile :: "CACHEFILE \<Rightarrow> int \<Rightarrow> 32 word \<Rightarrow> cachetable \<Rightarrow> cachetable" where
  "new_cachefile newcf fdesc fnum ct =
     ct\<lparr>files := (files ct)(newcf := null_file\<lparr>filenum := fnum, fd := fdesc, cf_bjm := bjm_init\<rparr>),
        cf_list := newcf # cf_list ct\<rparr>"

text \<open>
  Callbacks of an upper layer with pairs that cannot be cloned: the flush callback
  keeps the attributes, nothing needs a partial fetch, every call succeeds.
\<close>

definition demo_wc :: CACHETABLE_WRITE_CALLBACK where
  "demo_wc = \<lparr>wc_flush_callback = 11, wc_pe_est_callback = 12, wc_pe_callback = 13,
     wc_cleaner_callback = 14, wc_clone_callback = 0, wc_write_extraargs = 0\<rparr>"

definition demo_cb :: callbacks where
  "demo_cb = \<lparr>flush_result = (\<lambda>f a. (fa_disk_data a, fa_old_attr a)),
     clone_result = (\<lambda>f v e. (v + 1000, make_pair_attr 10)),
     pe_est_result = (\<lambda>f v d e. (0, PE_CHEAP)),
     pe_result = (\<lambda>f v a e. a),
     cleaner_result = (\<lambda>f v k h e. 0),
     fetch_cb_result = (\<lambda>f c p d k h e.
        \<lparr>fr_r = 0, fr_value = 200 + unat k, fr_disk_data = 0, fr_attr = make_pair_attr 10,
         fr_dirty = 0\<rparr>),
     pf_req_result = (\<lambda>f v e. False),
     pf_result = (\<lambda>f v d e x. (0, make_pair_attr 10)),
     cf_result = (\<lambda>f c. 0)\<rparr>"

text \<open>
  A cachetable of the default size with one cachefile (address 1, descriptor 3,
  number 7); then key 5 put with value handle 100; then unpinned; then with a
  checkpoint begun.
\<close>

definition demo_empty :: cachetable where
  "demo_empty = new_cachefile 1 3 7 (projr (toku_create_cachetable True 0 0))"

definition demo_hash :: "CACHEKEY \<Rightarrow> 32 word" where
  "demo_hash k = toku_cachetable_hash demo_empty 1 k"

definition demo_put :: cachetable where
  "demo_put = snd (projr (toku_cachetable_put demo_empty 1 5 (demo_hash 5) 100
                            (make_pair_attr 10) demo_wc 21))"

definition demo_unpinned :: cachetable where
  "demo_unpinned =
     snd (projr (toku_cachetable_unpin demo_put 1 1 CACHETABLE_CLEAN (make_pair_attr 10)))"

definition demo_checkpointing :: cachetable where
  "demo_checkpointing = snd (projr (begin_checkpoint demo_cb demo_unpinned))"

subsection \<open>The shape of the pair list\<close>

text \<open>
  The pairs of the table, bucket by bucket; what \<^verbatim>\<open>pair_list\<close> keeps true of its
  hash table (a power of two of buckets, each pair once and in the bucket of its
  hash) and of its clock ring (the pairs of the table, the two heads on it); and the
  table as a whole: \<^verbatim>\<open>m_n_in_table\<close> counts the pairs, no two pairs have the same
  cachefile and key, every pair carries the hash of its cachefile and key, and
  every address was handed out by the allocator.
\<close>

definition table_pairs :: "cachetable \<Rightarrow> PAIR list" where
  "table_pairs ct = concat (m_table (list ct))"

definition hash_wf :: "(PAIR \<Rightarrow> ctpair) \<Rightarrow> PAIR list list \<Rightarrow> bool" where
  "hash_wf ps T \<longleftrightarrow>
     (\<exists>n\<in>{2..<32}. length T = 2 ^ n) \<and>
     distinct (concat T) \<and>
     (\<forall>i\<in>set [0..<length T]. \<forall>p\<in>set (T ! i). bucket_of (length T) (fullhash (ps p)) = i)"

definition ring_wf :: "pair_list \<Rightarrow> bool" where
  "ring_wf pl \<longleftrightarrow>
     distinct (m_clock pl) \<and> set (m_clock pl) = set (concat (m_table pl)) \<and>
     (m_clock_head pl = None \<longleftrightarrow> m_clock pl = []) \<and>
     (m_cleaner_head pl = None \<longleftrightarrow> m_clock pl = []) \<and>
     set_option (m_clock_head pl) \<subseteq> set (m_clock pl) \<and>
     set_option (m_cleaner_head pl) \<subseteq> set (m_clock pl)"

definition table_wf :: "cachetable \<Rightarrow> bool" where
  "table_wf ct \<longleftrightarrow>
     hash_wf (pairs ct) (m_table (list ct)) \<and>
     m_n_in_table (list ct) = length (table_pairs ct) \<and>
     (\<forall>p\<in>set (table_pairs ct). \<forall>q\<in>set (table_pairs ct).
        cachefile (pairs ct p) = cachefile (pairs ct q) \<and> key (pairs ct p) = key (pairs ct q)
          \<longrightarrow> p = q) \<and>
     (\<forall>p\<in>set (table_pairs ct).
        fullhash (pairs ct p) =
          toku_cachetable_hash ct (cachefile (pairs ct p)) (key (pairs ct p))) \<and>
     (\<forall>p\<in>set (table_pairs ct). 0 < p \<and> p < next_pair ct) \<and> 0 < next_pair ct \<and>
     ring_wf (list ct)"

definition present :: "cachetable \<Rightarrow> CACHEFILE \<Rightarrow> CACHEKEY \<Rightarrow> PAIR \<Rightarrow> bool" where
  "present ct cf k p \<longleftrightarrow>
     p \<in> set (table_pairs ct) \<and> cachefile (pairs ct p) = cf \<and> key (pairs ct p) = k"

section \<open>Properties of the embedding\<close>

subsection \<open>Basic facts\<close>

lemma long_wrap_id: "- (2 ^ 63) \<le> x \<Longrightarrow> x < 2 ^ 63 \<Longrightarrow> long_wrap x = x"
  unfolding long_wrap_def by (simp add: mod_pos_pos_trivial)

lemma sdiv_nonneg: "0 \<le> a \<Longrightarrow> 0 < b \<Longrightarrow> (a::int) sdiv b = a div b"
  by (simp add: signed_divide_int_def sgn_if)

lemma long_div_mul:
  assumes "0 \<le> L" "c * L < 2 ^ 63" "0 < c" "0 < d"
  shows "long_div (long_mul c L) d = (c * L) div d"
proof -
  have nn: "0 \<le> c * L" using assms by simp
  have m: "long_mul c L = c * L"
    unfolding long_mul_def using nn assms(2) by (intro long_wrap_id) auto
  have q: "(c * L) div d \<le> c * L"
  proof -
    have "(c * L) div d \<le> (c * L) div 1"
      using nn assms(4) by (intro zdiv_mono2) auto
    then show ?thesis by simp
  qed
  have "0 \<le> (c * L) div d" using nn assms(4) by (simp add: pos_imp_zdiv_nonneg_iff)
  then show ?thesis
    unfolding long_div_def m using q assms(2,4) nn
    by (simp add: sdiv_nonneg long_wrap_id)
qed

subsection \<open>The evictor's thresholds\<close>

text \<open>
  Claim C8, as amended. For a size limit \<open>L\<close> given at creation (\<open>0\<close> standing for
  the default of 128 MiB) that is not negative and whose multiple \<open>11 * L\<close> fits
  a \<^verbatim>\<open>long\<close>, the thresholds of the evictor are \<open>low_watermark = L\<close>,
  \<open>low_hysteresis = 11 * L div 10\<close>, \<open>high_hysteresis = 5 * L div 4\<close> and
  \<open>high_watermark = 3 * L div 2\<close>, the quotients of integer division: they are
  the fractions \<open>1.1 L\<close>, \<open>1.25 L\<close> and \<open>1.5 L\<close> rounded down.
\<close>

theorem evictor_thresholds:
  assumes "0 \<le> effective_size_limit size_limit"
    and "11 * effective_size_limit size_limit < 2 ^ 63"
    and "toku_create_cachetable True size_limit logger = Inr ct"
  shows "m_low_size_watermark (ev ct) = effective_size_limit size_limit \<and>
         m_low_size_hysteresis (ev ct) = (11 * effective_size_limit size_limit) div 10 \<and>
         m_high_size_hysteresis (ev ct) = (5 * effective_size_limit size_limit) div 4 \<and>
         m_high_size_watermark (ev ct) = (3 * effective_size_limit size_limit) div 2"
proof -
  let ?L = "effective_size_limit size_limit"
  have e: "ev ct = evictor_init ?L"
    using assms(3) by (auto simp: toku_create_cachetable_def effective_size_limit_def Let_def)
  have a: "long_div (long_mul 11 ?L) 10 = (11 * ?L) div 10"
    using assms by (intro long_div_mul) auto
  have b: "long_div (long_mul 5 ?L) 4 = (5 * ?L) div 4"
    using assms by (intro long_div_mul) auto
  have c: "long_div (long_mul 3 ?L) 2 = (3 * ?L) div 2"
    using assms by (intro long_div_mul) auto
  show ?thesis unfolding e by (simp add: evictor_init_def a b c)
qed

lemma create_1000:
  "toku_create_cachetable True 1000 0 = Inr (projr (toku_create_cachetable True 1000 0))"
  by (simp add: toku_create_cachetable_def)

theorem evictor_thresholds_witness:
  "m_low_size_watermark (ev (projr (toku_create_cachetable True 1000 0))) = 1000 \<and>
   m_low_size_hysteresis (ev (projr (toku_create_cachetable True 1000 0))) = 1100 \<and>
   m_high_size_hysteresis (ev (projr (toku_create_cachetable True 1000 0))) = 1250 \<and>
   m_high_size_watermark (ev (projr (toku_create_cachetable True 1000 0))) = 1500"
proof -
  have a: "(0::int) \<le> effective_size_limit 1000" by (simp add: effective_size_limit_def)
  have b: "11 * effective_size_limit 1000 < 2 ^ 63" by (simp add: effective_size_limit_def)
  have c: "effective_size_limit 1000 = 1000" by (simp add: effective_size_limit_def)
  show ?thesis
    using evictor_thresholds [OF a b create_1000] unfolding c by simp
qed

lemma create_default_ev:
  "ev (projr (toku_create_cachetable True 0 0)) = evictor_init 134217728"
  by (simp add: toku_create_cachetable_def)

lemma default_low_hysteresis: "long_div (long_mul 11 134217728) 10 = 147639500"
proof -
  have "long_div (long_mul 11 134217728) 10 = (11 * 134217728) div 10"
    by (intro long_div_mul) auto
  then show ?thesis by simp
qed

text \<open>
  With the default size limit of 128 MiB the low hysteresis is 147639500, which is
  not \<open>1.1\<close> times 134217728.
\<close>

theorem evictor_thresholds_counterexample:
  "10 * m_low_size_hysteresis (ev (projr (toku_create_cachetable True 0 0)))
     \<noteq> 11 * m_low_size_watermark (ev (projr (toku_create_cachetable True 0 0)))"
  unfolding create_default_ev
  by (simp add: evictor_init_def default_low_hysteresis)

subsection \<open>The try-pins\<close>

lemma dirty_neq_clean [simp]: "d \<noteq> CACHETABLE_CLEAN \<longleftrightarrow> d = CACHETABLE_DIRTY"
  by (cases d) simp_all

lemma set_pair_same [simp]: "f (pairs ct p) = pairs ct p \<Longrightarrow> set_pair p f ct = ct"
  by (simp add: set_pair_def)

lemma set_pair_set_pair [simp]:
  "set_pair p f (set_pair p g ct) = set_pair p (\<lambda>x. f (g x)) ct"
  by (simp add: set_pair_def)

lemma lock_unlock_same:
  assumes "writers (value_nb_mutex (pairs ct p)) = 0"
  shows "ebind (value_lock p ct) (value_unlock p) = Inr ct"
  using assms by (simp add: value_lock_def value_unlock_def nb_mutex_lock_def nb_mutex_unlock_def)

text \<open>
  Claim C4, as amended. \<^verbatim>\<open>toku_cachetable_maybe_get_and_pin\<close> returns 0, with the
  value and with the pair pinned, if and only if the pair is present, its value lock
  has no users, it is dirty and no checkpoint is pending on it.
  \<^verbatim>\<open>toku_cachetable_maybe_get_and_pin_clean\<close> returns 0 if and only if the pair is
  present, its value lock has no users and no checkpoint is pending on it: only the
  dirtiness is particular to the first variant. Otherwise both return \<open>-1\<close> and
  leave the state as it was, with no lock held on the pair.
\<close>

theorem maybe_get_and_pin_variants:
  "toku_cachetable_maybe_get_and_pin ct cf k h = try_pin_result True ct cf k h \<and>
   toku_cachetable_maybe_get_and_pin_clean ct cf k h = try_pin_result False ct cf k h"
proof (cases "find_pair ct cf k h")
  case None
  then show ?thesis
    by (simp add: toku_cachetable_maybe_get_and_pin_def toku_cachetable_maybe_get_and_pin_clean_def
        try_pin_result_def try_pin_succeeds_def)
next
  case (Some p)
  show ?thesis
  proof (cases "writers (value_nb_mutex (pairs ct p)) = 0")
    case False
    then show ?thesis using Some
      by (simp add: toku_cachetable_maybe_get_and_pin_def
          toku_cachetable_maybe_get_and_pin_clean_def try_pin_result_def try_pin_succeeds_def)
  next
    case True
    then have l: "value_lock p ct = Inr (pinned p ct)"
      by (simp add: value_lock_def nb_mutex_lock_def pinned_def set_pair_def)
    have u: "value_unlock p (pinned p ct) = Inr ct"
      using lock_unlock_same [OF True] by (simp add: l)
    have f: "checkpoint_pending (pairs (pinned p ct) p) = checkpoint_pending (pairs ct p)"
      "value_data (pairs (pinned p ct) p) = value_data (pairs ct p)"
      by (simp_all add: pinned_def)
    show ?thesis using Some True
      by (simp add: toku_cachetable_maybe_get_and_pin_def
          toku_cachetable_maybe_get_and_pin_clean_def try_pin_result_def try_pin_succeeds_def
          l u f)
  qed
qed

text \<open>
  Once a checkpoint began, the pair of key 5 is present and its value lock has no
  users, yet the clean variant returns \<open>-1\<close>: the checkpoint is pending on the
  pair.
\<close>

theorem maybe_get_and_pin_clean_counterexample:
  "find_pair demo_checkpointing 1 5 (demo_hash 5) = Some 1 \<and>
   nb_mutex_users (value_nb_mutex (pairs demo_checkpointing 1)) = 0 \<and>
   map_sum id fst (toku_cachetable_maybe_get_and_pin_clean demo_checkpointing 1 5 (demo_hash 5))
     = Inr (- 1, None)"
  by code_simp

subsection \<open>The hash table and the ring\<close>

lemma c_assert_True [simp]: "c_assert True = Inr ()"
  by (simp add: c_assert_def)

lemma bucket_of_less:
  assumes "0 < n" "n < 2 ^ 32"
  shows "bucket_of n h < n"
proof -
  have u: "unat (word_of_nat n :: 32 word) = n"
    using assms(2) by (simp add: unat_of_nat take_bit_nat_eq_self)
  have nz: "(word_of_nat n :: 32 word) \<noteq> 0"
    using u assms(1) by (metis less_numeral_extra(3) unat_0)
  have "unat ((word_of_nat n :: 32 word) - 1) = n - 1"
    using unat_minus_one [OF nz] u by simp
  moreover have "h AND (word_of_nat n - 1) \<le> word_of_nat n - 1"
    by (rule word_and_le1)
  ultimately have "unat (h AND (word_of_nat n - 1)) \<le> n - 1"
    by (metis word_le_nat_alt)
  then show ?thesis using assms(1) by (simp add: bucket_of_def)
qed

lemma pow2_and_pred:
  assumes "k < 32"
  shows "(word_of_nat (2 ^ k) :: 32 word) AND (word_of_nat (2 ^ k) - 1) = 0"
proof -
  have "(2 ^ k :: 32 word) AND mask k = 0"
    by (rule bit_eqI) (auto simp: bit_simps)
  then show ?thesis by (simp add: mask_eq_exp_minus_1)
qed

lemma concat_update_cons:
  assumes "h < length acc"
  shows "set (concat (acc[h := p # acc ! h])) = insert p (set (concat acc))"
    and "length (concat (acc[h := p # acc ! h])) = Suc (length (concat acc))"
    and "distinct (concat (acc[h := p # acc ! h])) \<longleftrightarrow>
           p \<notin> set (concat acc) \<and> distinct (concat acc)"
proof -
  have a: "acc = take h acc @ (acc ! h) # drop (Suc h) acc"
    using assms by (simp add: id_take_nth_drop)
  have b: "acc[h := p # acc ! h] = take h acc @ (p # acc ! h) # drop (Suc h) acc"
    using assms by (simp add: upd_conv_take_nth_drop)
  have c: "concat acc = concat (take h acc) @ acc ! h @ concat (drop (Suc h) acc)"
    by (subst a) simp
  show "set (concat (acc[h := p # acc ! h])) = insert p (set (concat acc))"
    unfolding b by (subst c) auto
  show "length (concat (acc[h := p # acc ! h])) = Suc (length (concat acc))"
    unfolding b by (subst c) simp
  show "distinct (concat (acc[h := p # acc ! h])) \<longleftrightarrow>
           p \<notin> set (concat acc) \<and> distinct (concat acc)"
    unfolding b by (subst c, subst c) auto
qed

lemma rehash_fold_length [simp]:
  "length (foldl (rehash_push ps n) acc xs) = length acc"
  by (induction xs arbitrary: acc) (simp_all add: rehash_push_def Let_def)

lemma rehash_fold_nth:
  assumes "\<forall>p\<in>set xs. bucket_of n (fullhash (ps p)) < length acc" "i < length acc"
  shows "foldl (rehash_push ps n) acc xs ! i =
           rev (filter (\<lambda>p. bucket_of n (fullhash (ps p)) = i) xs) @ acc ! i"
  using assms
proof (induction xs arbitrary: acc)
  case Nil
  then show ?case by simp
next
  case (Cons x xs)
  let ?acc = "rehash_push ps n acc x"
  have l: "length ?acc = length acc" by (simp add: rehash_push_def Let_def)
  have "foldl (rehash_push ps n) ?acc xs ! i =
          rev (filter (\<lambda>p. bucket_of n (fullhash (ps p)) = i) xs) @ ?acc ! i"
    using Cons.prems by (intro Cons.IH) (simp_all add: l)
  moreover have "?acc ! i = (if bucket_of n (fullhash (ps x)) = i then x # acc ! i else acc ! i)"
    using Cons.prems by (auto simp: rehash_push_def Let_def)
  ultimately show ?case by simp
qed

lemma rehash_fold_concat:
  assumes "\<forall>p\<in>set xs. bucket_of n (fullhash (ps p)) < length acc"
  shows "set (concat (foldl (rehash_push ps n) acc xs)) = set xs \<union> set (concat acc) \<and>
         length (concat (foldl (rehash_push ps n) acc xs)) = length xs + length (concat acc) \<and>
         (distinct (concat (foldl (rehash_push ps n) acc xs)) \<longleftrightarrow>
           distinct xs \<and> distinct (concat acc) \<and> set xs \<inter> set (concat acc) = {})"
  using assms
proof (induction xs arbitrary: acc)
  case Nil
  show ?case by simp
next
  case (Cons x xs)
  let ?h = "bucket_of n (fullhash (ps x))"
  let ?acc = "rehash_push ps n acc x"
  have h: "?h < length acc" using Cons.prems by simp
  have l: "\<forall>p\<in>set xs. bucket_of n (fullhash (ps p)) < length ?acc"
    using Cons.prems by (simp add: rehash_push_def Let_def)
  have e: "?acc = acc[?h := x # acc ! ?h]"
    by (simp add: rehash_push_def Let_def)
  show ?case
    using Cons.IH [OF l] concat_update_cons [OF h, of x]
    unfolding e [symmetric] by auto
qed


lemma hash_wf_size:
  assumes "hash_wf ps T"
  obtains n where "2 \<le> n" "n < 32" "length T = 2 ^ n"
  using assms by (auto simp: hash_wf_def)

lemma pow2_bounds:
  assumes "2 \<le> n" "n < (32::nat)"
  shows "4 \<le> (2::nat) ^ n" "(2::nat) ^ n < 2 ^ 32"
proof -
  have "(2::nat) ^ 2 \<le> 2 ^ n" using assms(1) by (intro power_increasing) simp_all
  then show "4 \<le> (2::nat) ^ n" by simp
  show "(2::nat) ^ n < 2 ^ 32" using assms(2) by (intro power_strict_increasing) simp_all
qed

lemma hash_wf_bucketD:
  "hash_wf ps T \<Longrightarrow> i < length T \<Longrightarrow> q \<in> set (T ! i) \<Longrightarrow>
     bucket_of (length T) (fullhash (ps q)) = i"
  by (simp add: hash_wf_def)

lemma hash_wf_distinct: "hash_wf ps T \<Longrightarrow> distinct (concat T)"
  by (simp add: hash_wf_def)

lemma hash_wfI:
  assumes "2 \<le> n" "n < 32" "length T = 2 ^ n" "distinct (concat T)"
    and "\<And>i q. i < length T \<Longrightarrow> q \<in> set (T ! i) \<Longrightarrow> bucket_of (length T) (fullhash (ps q)) = i"
  shows "hash_wf ps T"
  unfolding hash_wf_def using assms(1-4) assms(5) by (intro conjI bexI [of _ n]) simp_all

lemma hash_wf_bounds:
  assumes "hash_wf ps T"
  shows "4 \<le> length T" "length T < 2 ^ 32" "0 < length T"
  using hash_wf_size [OF assms] pow2_bounds by (metis, metis, metis less_le_trans zero_less_numeral)

lemma hash_wf_bucket_less:
  assumes "hash_wf ps T"
  shows "bucket_of (length T) h < length T"
  using hash_wf_bounds [OF assms] by (intro bucket_of_less) simp_all

lemma hash_wf_placed:
  assumes "hash_wf ps T" "p \<in> set (concat T)"
  shows "p \<in> set (T ! bucket_of (length T) (fullhash (ps p)))"
proof -
  from assms(2) obtain b where b: "b \<in> set T" "p \<in> set b" by auto
  then obtain i where i: "i < length T" "T ! i = b" by (auto simp: in_set_conv_nth)
  with b assms(1) have "bucket_of (length T) (fullhash (ps p)) = i"
    by (auto simp: hash_wf_def)
  with i b show ?thesis by simp
qed

lemma bucket_subset:
  assumes "i < length T"
  shows "set (T ! i) \<subseteq> set (concat T)"
  using assms by (auto intro!: bexI [of _ "T ! i"])

lemma find_pair_None:
  assumes "table_wf ct" "\<forall>p. \<not> present ct cf k p"
  shows "find_pair ct cf k h = None"
proof -
  let ?T = "m_table (list ct)"
  have w: "hash_wf (pairs ct) ?T" using assms(1) by (simp add: table_wf_def)
  have "set (?T ! bucket_of (length ?T) h) \<subseteq> set (table_pairs ct)"
    unfolding table_pairs_def by (intro bucket_subset hash_wf_bucket_less [OF w])
  with assms(2) show ?thesis
    by (auto simp: find_pair_def m_table_size_def find_None_iff present_def)
qed

lemma find_pair_Some:
  assumes "table_wf ct" "present ct cf k p" "h = toku_cachetable_hash ct cf k"
  shows "find_pair ct cf k h = Some p"
proof -
  let ?T = "m_table (list ct)"
  have w: "hash_wf (pairs ct) ?T" using assms(1) by (simp add: table_wf_def)
  have p: "p \<in> set (concat ?T)" "cachefile (pairs ct p) = cf" "key (pairs ct p) = k"
    using assms(2) by (simp_all add: present_def table_pairs_def)
  have "fullhash (pairs ct p) = h"
    using assms(1,3) p unfolding table_wf_def table_pairs_def by blast
  then have b: "p \<in> set (?T ! bucket_of (length ?T) h)"
    using hash_wf_placed [OF w p(1)] by simp
  have s: "set (?T ! bucket_of (length ?T) h) \<subseteq> set (table_pairs ct)"
    unfolding table_pairs_def by (intro bucket_subset hash_wf_bucket_less [OF w])
  obtain q where q: "find_pair ct cf k h = Some q"
    using b p(2,3) by (cases "find_pair ct cf k h")
      (auto simp: find_pair_def m_table_size_def find_None_iff)
  then have "q \<in> set (?T ! bucket_of (length ?T) h)" "key (pairs ct q) = k"
      "cachefile (pairs ct q) = cf"
    by (auto simp: find_pair_def m_table_size_def find_Some_iff)
  with s have "q \<in> set (table_pairs ct)" by auto
  then have "q = p"
    using assms(1) p \<open>key (pairs ct q) = k\<close> \<open>cachefile (pairs ct q) = cf\<close>
    unfolding table_wf_def table_pairs_def by blast
  with q show ?thesis by simp
qed

lemma find_pair_SomeD:
  assumes "table_wf ct" "find_pair ct cf k h = Some p"
  shows "present ct cf k p"
proof -
  let ?T = "m_table (list ct)"
  have w: "hash_wf (pairs ct) ?T" using assms(1) by (simp add: table_wf_def)
  have s: "set (?T ! bucket_of (length ?T) h) \<subseteq> set (table_pairs ct)"
    unfolding table_pairs_def by (intro bucket_subset hash_wf_bucket_less [OF w])
  from assms(2) have "p \<in> set (?T ! bucket_of (length ?T) h)" "key (pairs ct p) = k"
      "cachefile (pairs ct p) = cf"
    by (auto simp: find_pair_def m_table_size_def find_Some_iff)
  with s show ?thesis by (auto simp: present_def)
qed


lemma hash_wf_cong:
  assumes "\<And>p. fullhash (ps' p) = fullhash (ps p)"
  shows "hash_wf ps' T = hash_wf ps T"
  by (simp add: hash_wf_def assms)

lemma rehash_ok:
  assumes "2 \<le> n" "n < 32" "distinct (concat (m_table (list ct)))"
  shows "\<exists>T'. rehash (2 ^ n) ct = Inr (ct\<lparr>list := (list ct)\<lparr>m_table := T'\<rparr>\<rparr>) \<and>
           hash_wf (pairs ct) T' \<and> set (concat T') = set (concat (m_table (list ct))) \<and>
           length (concat T') = length (concat (m_table (list ct)))"
proof -
  let ?N = "(2::nat) ^ n"
  let ?xs = "concat (m_table (list ct))"
  let ?T = "foldl (rehash_push (pairs ct) ?N) (replicate ?N []) ?xs"
  have b: "4 \<le> ?N" "?N < 2 ^ 32" using pow2_bounds [OF assms(1,2)] by simp_all
  have l: "\<forall>p\<in>set ?xs. bucket_of ?N (fullhash (pairs ct p)) < length (replicate ?N ([]::PAIR list))"
    using b by (simp add: bucket_of_less)
  have r: "rehash ?N ct = Inr (ct\<lparr>list := (list ct)\<lparr>m_table := ?T\<rparr>\<rparr>)"
    using b(1) pow2_and_pred [OF assms(2)] by (simp add: rehash_def c_assert_def)
  have c: "set (concat ?T) = set ?xs" "length (concat ?T) = length ?xs" "distinct (concat ?T)"
    using rehash_fold_concat [OF l] assms(3) by simp_all
  have "?T ! i = rev (filter (\<lambda>p. bucket_of ?N (fullhash (pairs ct p)) = i) ?xs)"
    if "i < ?N" for i
    using rehash_fold_nth [OF l, of i] that by simp
  then have "\<forall>i\<in>set [0..<length ?T]. \<forall>p\<in>set (?T ! i).
      bucket_of (length ?T) (fullhash (pairs ct p)) = i"
    by simp
  with c(3) assms(1,2) have "hash_wf (pairs ct) ?T"
    unfolding hash_wf_def by (auto intro!: bexI [of _ n])
  with r c show ?thesis by blast
qed

lemma insert_before_set:
  "set (insert_before h p ring) = insert p (set ring)"
proof -
  have "set ring = set (takeWhile (\<lambda>x. x \<noteq> h) ring @ dropWhile (\<lambda>x. x \<noteq> h) ring)"
    by simp
  then show ?thesis unfolding insert_before_def by (simp only: set_append set_simps) auto
qed

lemma insert_before_not_Nil [simp]: "insert_before h p ring \<noteq> []"
  by (simp add: insert_before_def)

lemma insert_before_distinct:
  assumes "distinct ring" "p \<notin> set ring"
  shows "distinct (insert_before h p ring)"
proof -
  have a: "distinct (takeWhile (\<lambda>x. x \<noteq> h) ring @ dropWhile (\<lambda>x. x \<noteq> h) ring)"
    using assms(1) by simp
  have b: "p \<notin> set (takeWhile (\<lambda>x. x \<noteq> h) ring)" "p \<notin> set (dropWhile (\<lambda>x. x \<noteq> h) ring)"
    using assms(2) by (auto dest: set_takeWhileD set_dropWhileD)
  show ?thesis unfolding insert_before_def using a b by (simp only: distinct_append) auto
qed

lemma pair_list_put_ok:
  assumes h: "hash_wf (pairs ct) (m_table (list ct))"
    and r: "ring_wf (list ct)"
    and n: "m_n_in_table (list ct) = length (concat (m_table (list ct)))"
    and p: "p \<notin> set (concat (m_table (list ct)))"
    and f: "find_pair ct (cachefile (pairs ct p)) (key (pairs ct p)) (fullhash (pairs ct p)) = None"
    and s: "2 * length (m_table (list ct)) < 2 ^ 32"
  shows "\<exists>pl'. pair_list_put p ct =
            Inr (ct\<lparr>pairs := (pairs ct)(p := (pairs ct p)\<lparr>count := CLOCK_INITIAL_COUNT\<rparr>),
                    list := pl'\<rparr>) \<and>
           hash_wf (pairs ct) (m_table pl') \<and> ring_wf pl' \<and>
           set (concat (m_table pl')) = insert p (set (concat (m_table (list ct)))) \<and>
           m_n_in_table pl' = length (concat (m_table pl')) \<and>
           m_pending pl' = m_pending (list ct)"
proof -
  let ?T = "m_table (list ct)"
  let ?ps' = "(pairs ct)(p := (pairs ct p)\<lparr>count := CLOCK_INITIAL_COUNT\<rparr>)"
  let ?b = "bucket_of (length ?T) (fullhash (pairs ct p))"
  let ?T1 = "?T[?b := p # ?T ! ?b]"
  have fh: "fullhash (?ps' q) = fullhash (pairs ct q)" for q by simp
  have bl: "?b < length ?T" by (rule hash_wf_bucket_less [OF h])
  have pr: "p \<notin> set (m_clock (list ct))" using r p by (simp add: ring_wf_def)
  define ring' where "ring' =
    (case m_clock_head (list ct) of None \<Rightarrow> [p] | Some hd0 \<Rightarrow> insert_before hd0 p (m_clock (list ct)))"
  define pl1 where "pl1 =
    (case m_clock_head (list ct) of
       None \<Rightarrow> (list ct)\<lparr>m_clock := [p], m_clock_head := Some p, m_cleaner_head := Some p\<rparr>
     | Some hd0 \<Rightarrow> (list ct)\<lparr>m_clock := insert_before hd0 p (m_clock (list ct))\<rparr>)"
  have a: "add_to_clock p ct = Inr (ct\<lparr>pairs := ?ps', list := pl1\<rparr>)"
  proof (cases "m_clock_head (list ct)")
    case None
    then show ?thesis by (simp add: add_to_clock_def set_pair_def pl1_def)
  next
    case (Some hd0)
    then have "m_cleaner_head (list ct) \<noteq> None"
      using r by (auto simp: ring_wf_def split: option.splits)
    with Some show ?thesis by (auto simp: add_to_clock_def set_pair_def pl1_def Let_def)
  qed
  have t1: "m_table pl1 = ?T" "m_n_in_table pl1 = m_n_in_table (list ct)"
      "m_pending pl1 = m_pending (list ct)"
    by (simp_all add: pl1_def split: option.splits)
  have c1: "set (m_clock pl1) = insert p (set (m_clock (list ct)))" "distinct (m_clock pl1)"
    using r pr
    by (auto simp: pl1_def ring_wf_def insert_before_set insert_before_distinct
        split: option.splits)
  have h1: "m_clock_head pl1 = None \<longleftrightarrow> m_clock pl1 = []"
      "m_cleaner_head pl1 = None \<longleftrightarrow> m_clock pl1 = []"
      "set_option (m_clock_head pl1) \<subseteq> set (m_clock pl1)"
      "set_option (m_cleaner_head pl1) \<subseteq> set (m_clock pl1)"
    using r by (auto simp: pl1_def ring_wf_def insert_before_set split: option.splits)
  define pl2 where "pl2 = pl1\<lparr>m_table := ?T1, m_n_in_table := m_n_in_table pl1 + 1\<rparr>"
  have cc: "set (concat ?T1) = insert p (set (concat ?T))"
      "length (concat ?T1) = Suc (length (concat ?T))" "distinct (concat ?T1)"
    using concat_update_cons [OF bl, of p] p hash_wf_distinct [OF h] by simp_all
  obtain k where k: "2 \<le> k" "k < 32" "length ?T = 2 ^ k" by (rule hash_wf_size [OF h])
  have h2: "hash_wf (pairs ct) ?T1"
  proof (rule hash_wfI [OF k(1,2)])
    show "length ?T1 = 2 ^ k" using k(3) by simp
    show "distinct (concat ?T1)" by (rule cc(3))
  next
    fix i q assume i: "i < length ?T1" and q: "q \<in> set (?T1 ! i)"
    show "bucket_of (length ?T1) (fullhash (pairs ct q)) = i"
    proof (cases "i = ?b")
      case True
      with q bl have "q = p \<or> q \<in> set (?T ! ?b)" by simp
      then show ?thesis using True hash_wf_bucketD [OF h bl, of q] by auto
    next
      case False
      with q i have "q \<in> set (?T ! i)" by simp
      then show ?thesis using hash_wf_bucketD [OF h, of i q] i by simp
    qed
  qed
  have st: "pair_list_put p ct =
     (if m_n_in_table pl2 > length ?T then
        rehash (length ?T * 2) (ct\<lparr>pairs := ?ps', list := pl2\<rparr>)
      else Inr (ct\<lparr>pairs := ?ps', list := pl2\<rparr>))"
    using f a by (simp add: pair_list_put_def Let_def pl2_def t1 m_table_size_def)
  show ?thesis
  proof (cases "m_n_in_table pl2 > length ?T")
    case False
    have "ring_wf pl2" using c1 h1 r cc
      by (simp add: ring_wf_def pl2_def t1)
    moreover have "m_n_in_table pl2 = length (concat (m_table pl2))"
      using n cc by (simp add: pl2_def t1)
    ultimately show ?thesis using False st h2 cc
      by (intro exI [of _ pl2]) (simp add: pl2_def t1)
  next
    case True
    have p2: "(2::nat) ^ Suc k < 2 ^ 32" using s k by simp
    have k32: "Suc k < 32" by (rule power_less_imp_less_exp [OF _ p2]) simp
    let ?ct2 = "ct\<lparr>pairs := ?ps', list := pl2\<rparr>"
    have d2: "distinct (concat (m_table (list ?ct2)))" using cc by (simp add: pl2_def)
    from rehash_ok [of "Suc k" ?ct2, OF _ k32 d2] k(1)
    obtain T' where T': "rehash (2 ^ Suc k) ?ct2 = Inr (?ct2\<lparr>list := (list ?ct2)\<lparr>m_table := T'\<rparr>\<rparr>)"
      "hash_wf (pairs ?ct2) T'" "set (concat T') = set (concat (m_table (list ?ct2)))"
      "length (concat T') = length (concat (m_table (list ?ct2)))"
      by auto
    have e: "length ?T * 2 = 2 ^ Suc k" using k by simp
    have hw: "hash_wf (pairs ct) T'"
      using T'(2) hash_wf_cong [of ?ps' "pairs ct" T'] by simp
    have "ring_wf (pl2\<lparr>m_table := T'\<rparr>)" using c1 h1 r cc T'(3)
      by (simp add: ring_wf_def pl2_def t1)
    moreover have "m_n_in_table pl2 = length (concat T')"
      using n cc T'(4) by (simp add: pl2_def t1)
    ultimately show ?thesis using True st hw cc T'
      by (intro exI [of _ "pl2\<lparr>m_table := T'\<rparr>"]) (simp add: pl2_def t1 e)
  qed
qed


lemma table_wfD:
  assumes "table_wf ct"
  shows "hash_wf (pairs ct) (m_table (list ct))"
    and "m_n_in_table (list ct) = length (concat (m_table (list ct)))"
    and "ring_wf (list ct)"
    and "0 < next_pair ct"
    and "\<And>p. p \<in> set (concat (m_table (list ct))) \<Longrightarrow> 0 < p \<and> p < next_pair ct"
    and "\<And>p. p \<in> set (concat (m_table (list ct))) \<Longrightarrow>
           fullhash (pairs ct p) =
             toku_cachetable_hash ct (cachefile (pairs ct p)) (key (pairs ct p))"
    and "\<And>p q. p \<in> set (concat (m_table (list ct))) \<Longrightarrow>
           q \<in> set (concat (m_table (list ct))) \<Longrightarrow>
           cachefile (pairs ct p) = cachefile (pairs ct q) \<Longrightarrow>
           key (pairs ct p) = key (pairs ct q) \<Longrightarrow> p = q"
  using assms unfolding table_wf_def table_pairs_def by blast+

lemma table_wfI:
  assumes "hash_wf (pairs ct) (m_table (list ct))"
    and "m_n_in_table (list ct) = length (concat (m_table (list ct)))"
    and "ring_wf (list ct)"
    and "0 < next_pair ct"
    and "\<And>p. p \<in> set (concat (m_table (list ct))) \<Longrightarrow> 0 < p \<and> p < next_pair ct"
    and "\<And>p. p \<in> set (concat (m_table (list ct))) \<Longrightarrow>
           fullhash (pairs ct p) =
             toku_cachetable_hash ct (cachefile (pairs ct p)) (key (pairs ct p))"
    and "\<And>p q. p \<in> set (concat (m_table (list ct))) \<Longrightarrow>
           q \<in> set (concat (m_table (list ct))) \<Longrightarrow>
           cachefile (pairs ct p) = cachefile (pairs ct q) \<Longrightarrow>
           key (pairs ct p) = key (pairs ct q) \<Longrightarrow> p = q"
  shows "table_wf ct"
  unfolding table_wf_def table_pairs_def using assms by blast

lemma find_pair_cong:
  assumes "list ct' = list ct"
    and "\<And>q. q \<in> set (concat (m_table (list ct))) \<Longrightarrow>
           key (pairs ct' q) = key (pairs ct q) \<and> cachefile (pairs ct' q) = cachefile (pairs ct q)"
    and "bucket_of (length (m_table (list ct))) h < length (m_table (list ct))"
  shows "find_pair ct' cf k h = find_pair ct cf k h"
proof -
  let ?b = "m_table (list ct) ! bucket_of (length (m_table (list ct))) h"
  have "set ?b \<subseteq> set (concat (m_table (list ct)))" by (rule bucket_subset [OF assms(3)])
  then have "key (pairs ct' x) = key (pairs ct x) \<and> cachefile (pairs ct' x) = cachefile (pairs ct x)"
    if "x \<in> set ?b" for x
    using assms(2) that by blast
  then have "find (\<lambda>p. key (pairs ct' p) = k \<and> cachefile (pairs ct' p) = cf) ?b =
             find (\<lambda>p. key (pairs ct p) = k \<and> cachefile (pairs ct p) = cf) ?b"
    by (intro find_cong) auto
  then show ?thesis by (simp add: find_pair_def m_table_size_def assms(1))
qed

lemma toku_cachetable_hash_cong:
  "(\<And>c. filenum (files ct' c) = filenum (files ct c)) \<Longrightarrow>
     toku_cachetable_hash ct' = toku_cachetable_hash ct"
  by (intro ext) (simp add: toku_cachetable_hash_def)

lemma cachetable_insert_at_ok:
  assumes wf: "table_wf ct"
    and ab: "\<forall>p. \<not> present ct cf k p"
    and h: "h = toku_cachetable_hash ct cf k"
    and a: "is_valid a"
    and s: "2 * m_table_size (list ct) < 2 ^ 32"
  shows "\<exists>pl' e'. cachetable_insert_at ct cf k v h a wc d =
            Inr (next_pair ct,
                 ct\<lparr>pairs := (pairs ct)(next_pair ct :=
                       (pair_init cf k v a d h wc)\<lparr>count := CLOCK_INITIAL_COUNT\<rparr>),
                    next_pair := next_pair ct + 1, list := pl', ev := e'\<rparr>) \<and>
           table_wf (ct\<lparr>pairs := (pairs ct)(next_pair ct :=
                       (pair_init cf k v a d h wc)\<lparr>count := CLOCK_INITIAL_COUNT\<rparr>),
                    next_pair := next_pair ct + 1, list := pl', ev := e'\<rparr>) \<and>
           set (concat (m_table pl')) = insert (next_pair ct) (set (table_pairs ct)) \<and>
           next_pair ct \<notin> set (table_pairs ct) \<and>
           m_pending pl' = m_pending (list ct)"
proof -
  let ?p = "next_pair ct"
  let ?x = "pair_init cf k v a d h wc"
  let ?ct1 = "ct\<lparr>pairs := (pairs ct)(?p := ?x), next_pair := ?p + 1\<rparr>"
  note w = table_wfD [OF wf]
  have fresh: "?p \<notin> set (concat (m_table (list ct)))" using w(5) [of ?p] by auto
  have id: "cachefile ?x = cf" "key ?x = k" "fullhash ?x = h"
    by (simp_all add: pair_init_def)
  have h1: "hash_wf (pairs ?ct1) (m_table (list ?ct1))"
  proof -
    obtain n where n: "2 \<le> n" "n < 32" "length (m_table (list ct)) = 2 ^ n"
      by (rule hash_wf_size [OF w(1)])
    show ?thesis
    proof (rule hash_wfI [OF n(1,2)])
      show "length (m_table (list ?ct1)) = 2 ^ n" using n(3) by simp
      show "distinct (concat (m_table (list ?ct1)))" using hash_wf_distinct [OF w(1)] by simp
    next
      fix i q
      assume i: "i < length (m_table (list ?ct1))" and q: "q \<in> set (m_table (list ?ct1) ! i)"
      then have "q \<in> set (concat (m_table (list ct)))"
        using bucket_subset [of i "m_table (list ct)"] by auto
      with fresh have "q \<noteq> ?p" by blast
      then show "bucket_of (length (m_table (list ?ct1))) (fullhash (pairs ?ct1 q)) = i"
        using hash_wf_bucketD [OF w(1), of i q] i q by simp
    qed
  qed
  have f0: "find_pair ct cf k h = None" by (rule find_pair_None [OF wf ab])
  have "find_pair ?ct1 cf k h = find_pair ct cf k h"
  proof (rule find_pair_cong)
    show "list ?ct1 = list ct" by simp
    show "bucket_of (length (m_table (list ct))) h < length (m_table (list ct))"
      by (rule hash_wf_bucket_less [OF w(1)])
  next
    fix q assume "q \<in> set (concat (m_table (list ct)))"
    with fresh have "q \<noteq> ?p" by auto
    then show "key (pairs ?ct1 q) = key (pairs ct q) \<and>
               cachefile (pairs ?ct1 q) = cachefile (pairs ct q)" by simp
  qed
  with f0 have f1: "find_pair ?ct1 (cachefile (pairs ?ct1 ?p)) (key (pairs ?ct1 ?p))
                      (fullhash (pairs ?ct1 ?p)) = None"
    by (simp add: id)
  from pair_list_put_ok [of ?ct1 ?p, OF h1 _ _ _ f1]
  obtain pl' where pl': "pair_list_put ?p ?ct1 =
        Inr (?ct1\<lparr>pairs := (pairs ?ct1)(?p := (pairs ?ct1 ?p)\<lparr>count := CLOCK_INITIAL_COUNT\<rparr>),
                  list := pl'\<rparr>)"
      "hash_wf (pairs ?ct1) (m_table pl')" "ring_wf pl'"
      "set (concat (m_table pl')) = insert ?p (set (concat (m_table (list ?ct1))))"
      "m_n_in_table pl' = length (concat (m_table pl'))"
      "m_pending pl' = m_pending (list ?ct1)"
    using w(2,3) fresh s by (auto simp: m_table_size_def)
  let ?ps' = "(pairs ct)(?p := ?x\<lparr>count := CLOCK_INITIAL_COUNT\<rparr>)"
  obtain e' where e': "add_pair_attr a (ev ct) = Inr e'"
    using a by (simp add: add_pair_attr_def)
  let ?ct' = "ct\<lparr>pairs := ?ps', next_pair := ?p + 1, list := pl', ev := e'\<rparr>"
  have r: "cachetable_insert_at ct cf k v h a wc d = Inr (?p, ?ct')"
    using w(4) pl'(1) e' by (simp add: cachetable_insert_at_def Let_def with_ev_def)
  have "table_wf ?ct'"
  proof (rule table_wfI)
    show "hash_wf (pairs ?ct') (m_table (list ?ct'))"
      using pl'(2) hash_wf_cong [of "pairs ?ct'" "pairs ?ct1" "m_table pl'"] by simp
    show "m_n_in_table (list ?ct') = length (concat (m_table (list ?ct')))"
      using pl'(5) by simp
    show "ring_wf (list ?ct')" using pl'(3) by simp
    show "0 < next_pair ?ct'" by simp
  next
    fix q assume "q \<in> set (concat (m_table (list ?ct')))"
    then have "q = ?p \<or> q \<in> set (concat (m_table (list ct)))" using pl'(4) by auto
    then show "0 < q \<and> q < next_pair ?ct'" using w(4) w(5) [of q]
      by (auto simp del: set_concat)
  next
    fix q assume "q \<in> set (concat (m_table (list ?ct')))"
    then have "q = ?p \<or> q \<in> set (concat (m_table (list ct)))" using pl'(4) by auto
    moreover have "toku_cachetable_hash ?ct' = toku_cachetable_hash ct"
      by (rule toku_cachetable_hash_cong) simp
    ultimately show "fullhash (pairs ?ct' q) =
        toku_cachetable_hash ?ct' (cachefile (pairs ?ct' q)) (key (pairs ?ct' q))"
      using w(6) [of q] fresh h by (auto simp: pair_init_def simp del: set_concat)
  next
    fix q q'
    assume q: "q \<in> set (concat (m_table (list ?ct')))"
      and q': "q' \<in> set (concat (m_table (list ?ct')))"
      and c: "cachefile (pairs ?ct' q) = cachefile (pairs ?ct' q')"
      and k: "key (pairs ?ct' q) = key (pairs ?ct' q')"
    have d: "q = ?p \<or> q \<in> set (concat (m_table (list ct)))"
        "q' = ?p \<or> q' \<in> set (concat (m_table (list ct)))"
      using q q' pl'(4) by auto
    have np: "\<not> (r \<in> set (concat (m_table (list ct))) \<and> cachefile (pairs ct r) = cf \<and>
                  key (pairs ct r) = k)" for r
      using ab by (simp add: present_def table_pairs_def)
    show "q = q'"
    proof (cases "q = ?p")
      case True
      show ?thesis
      proof (cases "q' = ?p")
        case True
        with \<open>q = ?p\<close> show ?thesis by simp
      next
        case False
        with d(2) have "q' \<in> set (concat (m_table (list ct)))" by simp
        with np [of q'] c k True False show ?thesis
          by (auto simp: pair_init_def simp del: set_concat)
      qed
    next
      case False
      with d(1) have qt: "q \<in> set (concat (m_table (list ct)))" by simp
      show ?thesis
      proof (cases "q' = ?p")
        case True
        with np [of q] c k qt False show ?thesis
          by (auto simp: pair_init_def simp del: set_concat)
      next
        case F2: False
        with d(2) have "q' \<in> set (concat (m_table (list ct)))" by simp
        with w(7) [of q q'] qt c k False F2 show ?thesis
          by (auto simp del: set_concat)
      qed
    qed
  qed
  with r pl'(4,6) fresh show ?thesis
    by (intro exI [of _ pl'] exI [of _ e']) (simp add: table_pairs_def)
qed

subsection \<open>Putting a pair\<close>

lemma table_wf_cong:
  assumes "list ct' = list ct" "next_pair ct' = next_pair ct"
    and "\<And>q. cachefile (pairs ct' q) = cachefile (pairs ct q)"
    and "\<And>q. key (pairs ct' q) = key (pairs ct q)"
    and "\<And>q. fullhash (pairs ct' q) = fullhash (pairs ct q)"
    and "\<And>c. filenum (files ct' c) = filenum (files ct c)"
  shows "table_wf ct' = table_wf ct"
  unfolding table_wf_def table_pairs_def toku_cachetable_hash_def
  by (simp add: assms hash_wf_cong [of "pairs ct'" "pairs ct", OF assms(5)])


lemma demo_empty_wf: "table_wf demo_empty"
  by code_simp

lemma demo_put_wf: "table_wf demo_put"
  by code_simp

lemma demo_empty_pairs: "table_pairs demo_empty = []"
  by code_simp

lemma demo_put_present: "present demo_put 1 5 1"
  by code_simp


text \<open>
  Claim C5. Let the table be well formed, with room to double its buckets, let the
  hash given to \<^verbatim>\<open>toku_cachetable_put\<close> be the hash of the cachefile and key, the
  attributes valid, the put callback not \<^verbatim>\<open>NULL\<close>, and the cache not so full that
  the client has to sleep. If a pair with that cachefile and key is in the table
  (with the callbacks the caller passes, which the code asserts), the call returns
  \<open>-1\<close> and the state is the one before the call: nothing is inserted, no lock is
  taken, no callback is called. If no such pair is in the table, the call returns
  \<open>0\<close>; the table has exactly one pair more, at a fresh address, and every other
  pair is as before; the new pair has the key, the value and the attributes of the
  call, is dirty, and its value lock is held by one writer; and the calls made to
  the upper layer are one call of the put callback, with the value and the new pair.
\<close>

theorem put_present_or_absent:
  assumes wf: "table_wf ct"
    and h: "h = toku_cachetable_hash ct cf k"
    and s: "2 * m_table_size (list ct) < 2 ^ 32"
    and ns: "\<not> should_client_thread_sleep (ev ct)"
    and a: "is_valid a"
    and pc: "put_callback \<noteq> 0"
  shows "(\<forall>p. present ct cf k p \<and>
              flush_callback (pairs ct p) = wc_flush_callback wc \<and>
              pe_callback (pairs ct p) = wc_pe_callback wc \<and>
              cleaner_callback (pairs ct p) = wc_cleaner_callback wc \<longrightarrow>
            toku_cachetable_put ct cf k h v a wc put_callback = Inr (- 1, ct)) \<and>
         ((\<forall>p. \<not> present ct cf k p) \<longrightarrow>
            (\<exists>ct'. toku_cachetable_put ct cf k h v a wc put_callback = Inr (0, ct') \<and>
               table_wf ct' \<and>
               next_pair ct \<notin> set (table_pairs ct) \<and>
               set (table_pairs ct') = insert (next_pair ct) (set (table_pairs ct)) \<and>
               (\<forall>q. q \<noteq> next_pair ct \<longrightarrow> pairs ct' q = pairs ct q) \<and>
               present ct' cf k (next_pair ct) \<and>
               value_data (pairs ct' (next_pair ct)) = v \<and>
               attr (pairs ct' (next_pair ct)) = a \<and>
               dirty (pairs ct' (next_pair ct)) = CACHETABLE_DIRTY \<and>
               nb_mutex_writers (value_nb_mutex (pairs ct' (next_pair ct))) = 1 \<and>
               trace ct' = trace ct @ [EV_PUT_CB put_callback v (next_pair ct)]))"
proof (intro conjI allI impI)
  fix p
  assume p: "present ct cf k p \<and>
              flush_callback (pairs ct p) = wc_flush_callback wc \<and>
              pe_callback (pairs ct p) = wc_pe_callback wc \<and>
              cleaner_callback (pairs ct p) = wc_cleaner_callback wc"
  then have "find_pair ct cf k h = Some p" using find_pair_Some [OF wf _ h] by simp
  with p ns show "toku_cachetable_put ct cf k h v a wc put_callback = Inr (- 1, ct)"
    by (simp add: toku_cachetable_put_def cachetable_put_internal_def)
next
  assume ab: "\<forall>p. \<not> present ct cf k p"
  let ?p = "next_pair ct"
  define ct0 where "ct0 = ct\<lparr>cachetable_puts := cachetable_puts ct + 1\<rparr>"
  have c0: "list ct0 = list ct" "next_pair ct0 = ?p" "pairs ct0 = pairs ct" "files ct0 = files ct"
      "trace ct0 = trace ct" "ev ct0 = ev ct"
    by (simp_all add: ct0_def)
  have f: "find_pair ct cf k h = None" by (rule find_pair_None [OF wf ab])
  have "table_wf ct0 = table_wf ct"
    by (rule table_wf_cong) (simp_all add: c0)
  with wf have wf0: "table_wf ct0" by simp
  have ab0: "\<forall>p. \<not> present ct0 cf k p"
    using ab by (simp add: present_def table_pairs_def c0)
  have h0: "h = toku_cachetable_hash ct0 cf k"
    using h by (simp add: toku_cachetable_hash_def c0)
  have s0: "2 * m_table_size (list ct0) < 2 ^ 32" using s by (simp add: c0)
  let ?x = "(pair_init cf k v a CACHETABLE_DIRTY h wc)\<lparr>count := CLOCK_INITIAL_COUNT\<rparr>"
  from cachetable_insert_at_ok [OF wf0 ab0 h0 a s0, of v wc CACHETABLE_DIRTY]
  obtain pl' e' where i0:
    "cachetable_insert_at ct0 cf k v h a wc CACHETABLE_DIRTY =
       Inr (?p, ct0\<lparr>pairs := (pairs ct)(?p := ?x), next_pair := ?p + 1, list := pl', ev := e'\<rparr>)"
    "table_wf (ct0\<lparr>pairs := (pairs ct)(?p := ?x), next_pair := ?p + 1, list := pl', ev := e'\<rparr>)"
    "set (concat (m_table pl')) = insert ?p (set (table_pairs ct))"
    "?p \<notin> set (table_pairs ct)"
    unfolding c0 table_pairs_def by blast
  define ct1 where
    "ct1 = ct0\<lparr>pairs := (pairs ct)(?p := ?x), next_pair := ?p + 1, list := pl', ev := e'\<rparr>"
  have c1: "list ct1 = pl'" "pairs ct1 = (pairs ct)(?p := ?x)" "files ct1 = files ct"
      "trace ct1 = trace ct" "next_pair ct1 = ?p + 1"
    by (simp_all add: ct1_def c0)
  note i = i0 [folded ct1_def]
  define ct2 where
    "ct2 = set_pair ?p (\<lambda>x. x\<lparr>value_nb_mutex := (value_nb_mutex (pairs ct1 ?p))\<lparr>writers := 1\<rparr>\<rparr>) ct1"
  have c2: "list ct2 = pl'"
      "pairs ct2 = (pairs ct)(?p := ?x\<lparr>value_nb_mutex := (value_nb_mutex ?x)\<lparr>writers := 1\<rparr>\<rparr>)"
      "files ct2 = files ct" "trace ct2 = trace ct" "next_pair ct2 = ?p + 1"
    by (simp_all add: ct2_def c1 set_pair_def)
  define ct' where "ct' = emit (EV_PUT_CB put_callback v ?p) ct2"
  have c': "list ct' = pl'"
      "pairs ct' = (pairs ct)(?p := ?x\<lparr>value_nb_mutex := (value_nb_mutex ?x)\<lparr>writers := 1\<rparr>\<rparr>)"
      "files ct' = files ct" "trace ct' = trace ct @ [EV_PUT_CB put_callback v ?p]"
      "next_pair ct' = ?p + 1"
    by (simp_all add: ct'_def c2 emit_def)
  have p0: "0 < ?p" by (rule table_wfD(4) [OF wf])
  have "writers (value_nb_mutex (pairs ct1 ?p)) = 0"
    by (simp add: c1 pair_init_def nb_mutex_init_def)
  then have l: "value_lock ?p ct1 = Inr ct2"
    by (simp add: value_lock_Inr ct2_def)
  have "cachetable_put_internal ct cf k h v a wc put_callback = Inr (0, ct')"
    unfolding cachetable_put_internal_def ct0_def [symmetric]
    by (simp add: f i(1) l p0 pc ct'_def)
  then have r: "toku_cachetable_put ct cf k h v a wc put_callback = Inr (0, ct')"
    using ns by (simp add: toku_cachetable_put_def)
  have wf1: "table_wf ct1" by (rule i(2))
  have "table_wf ct' = table_wf ct1"
    by (rule table_wf_cong) (simp_all add: c' c1)
  with wf1 have wf': "table_wf ct'" by simp
  have pr: "present ct' cf k ?p"
    using i(3) by (simp add: present_def table_pairs_def c' pair_init_def)
  show "\<exists>ct'. toku_cachetable_put ct cf k h v a wc put_callback = Inr (0, ct') \<and>
               table_wf ct' \<and>
               next_pair ct \<notin> set (table_pairs ct) \<and>
               set (table_pairs ct') = insert (next_pair ct) (set (table_pairs ct)) \<and>
               (\<forall>q. q \<noteq> next_pair ct \<longrightarrow> pairs ct' q = pairs ct q) \<and>
               present ct' cf k (next_pair ct) \<and>
               value_data (pairs ct' (next_pair ct)) = v \<and>
               attr (pairs ct' (next_pair ct)) = a \<and>
               dirty (pairs ct' (next_pair ct)) = CACHETABLE_DIRTY \<and>
               nb_mutex_writers (value_nb_mutex (pairs ct' (next_pair ct))) = 1 \<and>
               trace ct' = trace ct @ [EV_PUT_CB put_callback v (next_pair ct)]"
    using r wf' i(3,4) pr
    by (intro exI [of _ ct']) (simp add: c' table_pairs_def pair_init_def)
qed



theorem put_present_or_absent_witness:
  "(\<exists>ct'. toku_cachetable_put demo_empty 1 5 (demo_hash 5) 100 (make_pair_attr 10) demo_wc 21
            = Inr (0, ct') \<and>
          value_data (pairs ct' (next_pair demo_empty)) = 100 \<and>
          trace ct' = trace demo_empty @ [EV_PUT_CB 21 100 (next_pair demo_empty)]) \<and>
   toku_cachetable_put demo_put 1 5 (demo_hash 5) 300 (make_pair_attr 10) demo_wc 21
     = Inr (- 1, demo_put)"
proof -
  have h: "demo_hash 5 = toku_cachetable_hash demo_empty 1 5" by (simp add: demo_hash_def)
  have "filenum (files demo_put 1) = filenum (files demo_empty 1)" by code_simp
  then have h': "demo_hash 5 = toku_cachetable_hash demo_put 1 5"
    by (simp add: demo_hash_def toku_cachetable_hash_def)
  have "m_table_size (list demo_empty) = 4" by code_simp
  then have s: "2 * m_table_size (list demo_empty) < 2 ^ 32" by simp
  have "m_table_size (list demo_put) = 4" by code_simp
  then have s': "2 * m_table_size (list demo_put) < 2 ^ 32" by simp
  have ns: "\<not> should_client_thread_sleep (ev demo_empty)" by code_simp
  have ns': "\<not> should_client_thread_sleep (ev demo_put)" by code_simp
  have a: "is_valid (make_pair_attr 10)" by code_simp
  have pc: "(21::nat) \<noteq> 0" by simp
  have ab: "\<forall>p. \<not> present demo_empty 1 5 p" by (simp add: present_def demo_empty_pairs)
  have cbs: "flush_callback (pairs demo_put 1) = wc_flush_callback demo_wc"
    "pe_callback (pairs demo_put 1) = wc_pe_callback demo_wc"
    "cleaner_callback (pairs demo_put 1) = wc_cleaner_callback demo_wc"
    by code_simp+
  show ?thesis
    using put_present_or_absent [OF demo_empty_wf h s ns a pc, where v = 100 and wc = demo_wc] ab
      put_present_or_absent [OF demo_put_wf h' s' ns' a pc, where v = 300 and wc = demo_wc]
      demo_put_present cbs
    by blast
qed

end
